theory Spec2Isabelle
  imports Complex_Main "HOL-Library.Sublist"
begin

section \<open>Python strings\<close>

text \<open>
  Python strings are modelled as \<open>string\<close> (lists of characters).  The string methods the
  server uses are written out: \<open>str.startswith\<close>, \<open>str.replace\<close> (for a non-empty
  pattern, the only way the source calls it), \<open>str.split()\<close> on whitespace,
  \<open>str.split('/')\<close> and the formatting of an integer inside an f-string.
\<close>

definition startswith :: "string \<Rightarrow> string \<Rightarrow> bool" where
  "startswith s p = (take (length p) s = p)"

text \<open>\<open>s.replace(old, new)\<close>: every non-overlapping occurrence, scanning from the left.\<close>

function str_replace :: "string \<Rightarrow> string \<Rightarrow> string \<Rightarrow> string" where
  "str_replace old new [] = []"
| "str_replace old new (c # cs) =
     (if old \<noteq> [] \<and> take (length old) (c # cs) = old
      then new @ str_replace old new (drop (length old) (c # cs))
      else c # str_replace old new cs)"
  by pat_completeness auto
termination
  by (relation "measure (\<lambda>(old, new, s). length s)") (auto simp: neq_Nil_conv)

text \<open>The characters \<open>str.split()\<close> and \<open>str.strip()\<close> treat as whitespace (code points
  below 256).\<close>

definition is_space :: "char \<Rightarrow> bool" where
  "is_space c = (c \<in> {CHR 0x09, CHR 0x0A, CHR 0x0B, CHR 0x0C, CHR 0x0D,
                       CHR 0x1C, CHR 0x1D, CHR 0x1E, CHR 0x1F, CHR 0x20, CHR 0x85, CHR 0xA0})"

text \<open>\<open>s.split()\<close>: the maximal runs of non-whitespace characters, in order.  The first
  argument is the token being read.\<close>

fun split_ws :: "string \<Rightarrow> string \<Rightarrow> string list" where
  "split_ws cur [] = (if cur = [] then [] else [cur])"
| "split_ws cur (c # cs) =
     (if is_space c then (if cur = [] then split_ws [] cs else cur # split_ws [] cs)
      else split_ws (cur @ [c]) cs)"

definition str_split :: "string \<Rightarrow> string list" where
  "str_split s = split_ws [] s"

text \<open>\<open>s.split(sep)\<close> for a one-character separator: never empty.\<close>

fun split_on :: "char \<Rightarrow> string \<Rightarrow> string \<Rightarrow> string list" where
  "split_on sep cur [] = [cur]"
| "split_on sep cur (c # cs) =
     (if c = sep then cur # split_on sep [] cs else split_on sep (cur @ [c]) cs)"

definition str_split_sep :: "string \<Rightarrow> char \<Rightarrow> string list" where
  "str_split_sep s sep = split_on sep [] s"

text \<open>\<open>str(n)\<close> for an integer, as an f-string formats it.\<close>

definition digit_char :: "nat \<Rightarrow> char" where
  "digit_char d = ''0123456789'' ! d"

fun str_nat :: "nat \<Rightarrow> string" where
  "str_nat n = (if n < 10 then [digit_char n] else str_nat (n div 10) @ [digit_char (n mod 10)])"

declare str_nat.simps [simp del]

definition str_int :: "int \<Rightarrow> string" where
  "str_int i = (if i < 0 then CHR ''-'' # str_nat (nat (- i)) else str_nat (nat i))"

text \<open>The number a string of decimal digits denotes: the inverse of \<open>str_nat\<close>.\<close>

definition digit_val :: "char \<Rightarrow> nat" where
  "digit_val c = of_char c - 48"

definition digits_val :: "string \<Rightarrow> nat" where
  "digits_val s = foldl (\<lambda>a c. 10 * a + digit_val c) 0 s"

section \<open>The query builder\<close>

text \<open>The request models of \<open>server.py\<close> (pydantic classes).  \<open>value\<close> is a
  keyword, so the field of that name is \<open>value_c\<close>.\<close>

record Constraint =
  property :: string
  value_c :: string

record DatasetConfig =
  item_type :: string
  constraints :: "Constraint list"
  dataset_type :: string
  min_pop :: int
  exclude_dissolved :: bool
  limit :: int

text \<open>The loop over \<open>config.constraints\<close> in \<open>build_query\<close>; \<open>sparql\<close> is the query
  text built so far.\<close>

fun constraints_loop :: "string \<Rightarrow> Constraint list \<Rightarrow> string" where
  "constraints_loop sparql [] = sparql"
| "constraints_loop sparql (c # cs) =
     (let prop = property c;
          val = value_c c;
          is_negative = startswith prop ''-''
      in if is_negative
         then (let prop = drop 1 prop
               in constraints_loop
                    (sparql @ ''  FILTER NOT EXISTS { ?item wdt:'' @ prop @ '' wd:'' @ val
                       @ ''. }\<newline>'') cs)
         else constraints_loop (sparql @ ''  ?item wdt:'' @ prop @ '' wd:'' @ val @ ''.\<newline>'') cs)"

definition build_query :: "DatasetConfig \<Rightarrow> string" where
  "build_query config =
    (let sparql = ''SELECT DISTINCT ?item ?itemLabel '';
         sparql = (if dataset_type config = ''point'' then sparql @ ''?coord ''
                   else if dataset_type config = ''polygon'' then sparql @ ''?geoShapeUrl ''
                   else sparql);
         sparql = sparql @ ''?sitelinks '';
         sparql = sparql @ ''WHERE {\<newline>'';
         sparql = sparql @ ''  ?item wdt:P31/wdt:P279* wd:'' @ item_type config @ ''.\<newline>'';
         sparql = constraints_loop sparql (constraints config);
         sparql = (if min_pop config > 0
                   then sparql @ ''  ?item wdt:P1082 ?pop. FILTER(?pop >= ''
                          @ str_int (min_pop config) @ '').\<newline>''
                   else sparql);
         sparql = (if exclude_dissolved config
                   then sparql @ ''  FILTER NOT EXISTS { ?item wdt:P576 ?end. }\<newline>''
                   else sparql);
         sparql = (if dataset_type config = ''point''
                   then sparql @ ''  ?item wdt:P625 ?coord.\<newline>''
                   else if dataset_type config = ''polygon''
                   then sparql @ ''  ?item wdt:P3896 ?geoShapeUrl.\<newline>''
                   else sparql);
         sparql = sparql @ ''  ?item wikibase:sitelinks ?sitelinks.\<newline>'';
         sparql = sparql @ ''  SERVICE wikibase:label { bd:serviceParam wikibase:language ''
                    @ [CHR 0x22] @ ''[AUTO_LANGUAGE],en'' @ [CHR 0x22] @ ''. }\<newline>'';
         sparql = sparql @ ''}\<newline>'';
         sparql = sparql @ ''ORDER BY DESC(?sitelinks)\<newline>'';
         sparql = sparql @ ''LIMIT '' @ str_int (limit config)
     in sparql)"

text \<open>
  \<open>build_query\<close> of \<open>manage_datasets.py\<close>, the interactive script the server's
  function was ported from: the same text, built from separate arguments and from
  constraints given as pairs.
\<close>

fun constraints_loop_cli :: "string \<Rightarrow> (string \<times> string) list \<Rightarrow> string" where
  "constraints_loop_cli sparql [] = sparql"
| "constraints_loop_cli sparql ((prop, val) # cs) =
     (let is_negative = startswith prop ''-''
      in if is_negative
         then (let prop = drop 1 prop
               in constraints_loop_cli
                    (sparql @ ''  FILTER NOT EXISTS { ?item wdt:'' @ prop @ '' wd:'' @ val
                       @ ''. }\<newline>'') cs)
         else constraints_loop_cli
                (sparql @ ''  ?item wdt:'' @ prop @ '' wd:'' @ val @ ''.\<newline>'') cs)"

definition build_query_cli ::
  "string \<Rightarrow> (string \<times> string) list \<Rightarrow> string \<Rightarrow> int \<Rightarrow> bool \<Rightarrow> int \<Rightarrow> string" where
  "build_query_cli item_type_id constraints' dtype min_pop' exclude_dissolved' limit' =
    (let sparql = ''SELECT DISTINCT ?item ?itemLabel '';
         sparql = (if dtype = ''point'' then sparql @ ''?coord ''
                   else if dtype = ''polygon'' then sparql @ ''?geoShapeUrl ''
                   else sparql);
         sparql = sparql @ ''?sitelinks '';
         sparql = sparql @ ''WHERE {\<newline>'';
         sparql = sparql @ ''  ?item wdt:P31/wdt:P279* wd:'' @ item_type_id @ ''.\<newline>'';
         sparql = constraints_loop_cli sparql constraints';
         sparql = (if min_pop' > 0
                   then sparql @ ''  ?item wdt:P1082 ?pop. FILTER(?pop >= ''
                          @ str_int min_pop' @ '').\<newline>''
                   else sparql);
         sparql = (if exclude_dissolved'
                   then sparql @ ''  FILTER NOT EXISTS { ?item wdt:P576 ?end. }\<newline>''
                   else sparql);
         sparql = (if dtype = ''point''
                   then sparql @ ''  ?item wdt:P625 ?coord.\<newline>''
                   else if dtype = ''polygon''
                   then sparql @ ''  ?item wdt:P3896 ?geoShapeUrl.\<newline>''
                   else sparql);
         sparql = sparql @ ''  ?item wikibase:sitelinks ?sitelinks.\<newline>'';
         sparql = sparql @ ''  SERVICE wikibase:label { bd:serviceParam wikibase:language ''
                    @ [CHR 0x22] @ ''[AUTO_LANGUAGE],en'' @ [CHR 0x22] @ ''. }\<newline>'';
         sparql = sparql @ ''}\<newline>'';
         sparql = sparql @ ''ORDER BY DESC(?sitelinks)\<newline>'';
         sparql = sparql @ ''LIMIT '' @ str_int limit'
     in sparql)"

text \<open>
  The text a single constraint contributes, following the specification: a property that
  begins with the marker \<open>-\<close> is negated and compiles to a negated-existence filter
  block over the property without the marker; any other property compiles to a positive
  triple pattern.
\<close>

definition filter_block :: "string \<Rightarrow> string \<Rightarrow> string" where
  "filter_block p v = ''  FILTER NOT EXISTS { ?item wdt:'' @ p @ '' wd:'' @ v @ ''. }\<newline>''"

definition triple_pattern :: "string \<Rightarrow> string \<Rightarrow> string" where
  "triple_pattern p v = ''  ?item wdt:'' @ p @ '' wd:'' @ v @ ''.\<newline>''"

definition constraint_clause :: "Constraint \<Rightarrow> string" where
  "constraint_clause c =
     (case property c of
        [] \<Rightarrow> triple_pattern [] (value_c c)
      | m # p \<Rightarrow> if m = CHR ''-'' then filter_block p (value_c c)
                 else triple_pattern (m # p) (value_c c))"

definition query_head :: "DatasetConfig \<Rightarrow> string" where
  "query_head config =
     ''SELECT DISTINCT ?item ?itemLabel ''
     @ (if dataset_type config = ''point'' then ''?coord ''
        else if dataset_type config = ''polygon'' then ''?geoShapeUrl '' else [])
     @ ''?sitelinks '' @ ''WHERE {\<newline>'' @ ''  ?item wdt:P31/wdt:P279* wd:'' @ item_type config
     @ ''.\<newline>''"

definition query_tail :: "DatasetConfig \<Rightarrow> string" where
  "query_tail config =
     (if min_pop config > 0
      then ''  ?item wdt:P1082 ?pop. FILTER(?pop >= '' @ str_int (min_pop config) @ '').\<newline>''
      else [])
     @ (if exclude_dissolved config then ''  FILTER NOT EXISTS { ?item wdt:P576 ?end. }\<newline>''
        else [])
     @ (if dataset_type config = ''point'' then ''  ?item wdt:P625 ?coord.\<newline>''
        else if dataset_type config = ''polygon'' then ''  ?item wdt:P3896 ?geoShapeUrl.\<newline>''
        else [])
     @ ''  ?item wikibase:sitelinks ?sitelinks.\<newline>''
     @ ''  SERVICE wikibase:label { bd:serviceParam wikibase:language ''
     @ [CHR 0x22] @ ''[AUTO_LANGUAGE],en'' @ [CHR 0x22] @ ''. }\<newline>''
     @ ''}\<newline>'' @ ''ORDER BY DESC(?sitelinks)\<newline>'' @ ''LIMIT '' @ str_int (limit config)"

text \<open>
  Occurrence of a variable or clause in the compiled query is containment as a contiguous
  substring (\<open>sublist\<close>).  \<open>identifiers_free n config\<close> says that none of the
  identifier strings the caller supplies (the item type, the constraint properties and
  values) contains the text \<open>n\<close> itself.
\<close>

definition identifiers_free :: "string \<Rightarrow> DatasetConfig \<Rightarrow> bool" where
  "identifiers_free n config =
     (\<not> sublist n (item_type config)
      \<and> list_all (\<lambda>c. \<not> sublist n (property c) \<and> \<not> sublist n (value_c c)) (constraints config))"

text \<open>Auxiliary notions for splitting a string at characters that do not occur in \<open>n\<close>.\<close>

definition good :: "string \<Rightarrow> string \<Rightarrow> bool" where
  "good n s = (\<not> sublist n s \<and> (s = [] \<or> hd s \<notin> set n))"

definition sep_lit :: "string \<Rightarrow> string \<Rightarrow> bool" where
  "sep_lit n l = (\<not> sublist n l \<and> l \<noteq> [] \<and> hd l \<notin> set n \<and> last l \<notin> set n)"

text \<open>Example configurations: cities outside Germany, and an item type that carries
  query text of its own.\<close>

definition cities_config :: DatasetConfig where
  "cities_config =
     \<lparr>item_type = ''Q515'', constraints = [\<lparr>property = ''-P17'', value_c = ''Q183''\<rparr>],
      dataset_type = ''point'', min_pop = 1000, exclude_dissolved = True, limit = 100\<rparr>"

definition injected_config :: DatasetConfig where
  "injected_config =
     \<lparr>item_type = ''Q515.\<newline>  ?item wdt:P3896 ?geoShapeUrl'', constraints = [],
      dataset_type = ''point'', min_pop = 0, exclude_dissolved = False, limit = 1\<rparr>"

section \<open>JSON values and Python's operations on them\<close>

text \<open>
  What \<open>response.json()\<close> and \<open>json.load\<close> return: \<open>None\<close>, booleans, integers,
  floats, strings, lists and dictionaries with string keys.  Floating-point numbers are
  not modelled: the type \<open>'f\<close> of floats is a parameter, and so is Python's \<open>float()\<close>
  on strings (\<open>None\<close> stands for its \<open>ValueError\<close>).  A dictionary is an association list
  in insertion order; lookup takes the first entry of a key.
\<close>

datatype 'f json =
    JNull
  | JBool bool
  | JInt int
  | JFloat 'f
  | JStr string
  | JArr "'f json list"
  | JObj "(string \<times> 'f json) list"

datatype py_error = KeyError | TypeError | AttributeError | ValueError | JSONDecodeError

text \<open>\<open>x[key]\<close> for a string key: only a dictionary can answer.\<close>

fun py_getitem :: "'f json \<Rightarrow> string \<Rightarrow> py_error + 'f json" where
  "py_getitem (JObj kvs) key = (case map_of kvs key of None \<Rightarrow> Inl KeyError | Some v \<Rightarrow> Inr v)"
| "py_getitem _ key = Inl TypeError"

text \<open>The receiver of a string method such as \<open>split\<close> or \<open>replace\<close>: any other value
  has no such attribute.\<close>

fun as_str :: "'f json \<Rightarrow> py_error + string" where
  "as_str (JStr s) = Inr s"
| "as_str _ = Inl AttributeError"

text \<open>The items a \<open>for\<close> loop visits: the elements of a list, the keys of a dictionary,
  the characters of a string; nothing else is iterable.\<close>

fun py_iter :: "'f json \<Rightarrow> py_error + 'f json list" where
  "py_iter (JArr xs) = Inr xs"
| "py_iter (JObj kvs) = Inr (map (\<lambda>kv. JStr (fst kv)) kvs)"
| "py_iter (JStr s) = Inr (map (\<lambda>c. JStr [c]) s)"
| "py_iter _ = Inl TypeError"

text \<open>Truth value of an object, as \<open>if not x\<close> tests it.\<close>

fun truthy :: "('f::zero) json \<Rightarrow> bool" where
  "truthy JNull = False"
| "truthy (JBool b) = b"
| "truthy (JInt i) = (i \<noteq> 0)"
| "truthy (JFloat x) = (x \<noteq> 0)"
| "truthy (JStr s) = (s \<noteq> [])"
| "truthy (JArr xs) = (xs \<noteq> [])"
| "truthy (JObj kvs) = (kvs \<noteq> [])"

section \<open>The result normalizer\<close>

text \<open>\<open>parse_results\<close> is the same function in \<open>server.py\<close> and in
  \<open>manage_datasets.py\<close>.\<close>

text \<open>
  \<open>clean = wkt.replace("Point(", "").replace(")", "")\<close> and
  \<open>lon, lat = map(float, clean.split())\<close>: exactly two tokens, both accepted by
  \<open>float\<close>; every other outcome is a \<open>ValueError\<close>.  The pair is (lon, lat).
\<close>

definition parse_point :: "(string \<Rightarrow> 'f option) \<Rightarrow> string \<Rightarrow> py_error + ('f \<times> 'f)" where
  "parse_point pyfloat wkt =
     (let clean = str_replace '')'' [] (str_replace ''Point('' [] wkt)
      in case str_split clean of
           [a, b] \<Rightarrow>
             (case pyfloat a of
                None \<Rightarrow> Inl ValueError
              | Some lon \<Rightarrow> (case pyfloat b of None \<Rightarrow> Inl ValueError | Some lat \<Rightarrow> Inr (lon, lat)))
         | _ \<Rightarrow> Inl ValueError)"

text \<open>\<open>item[var]['value']\<close>.\<close>

definition binding_value :: "'f json \<Rightarrow> string \<Rightarrow> py_error + 'f json" where
  "binding_value item var =
     (case py_getitem item var of Inl e \<Rightarrow> Inl e | Inr b \<Rightarrow> py_getitem b ''value'')"

text \<open>The body of the \<open>try\<close> block of \<open>parse_results\<close>, for one binding row: the entry it
  appends, or the exception it raises.\<close>

definition parse_row :: "(string \<Rightarrow> 'f option) \<Rightarrow> 'f json \<Rightarrow> string \<Rightarrow> py_error + 'f json" where
  "parse_row pyfloat item dtype =
     (case binding_value item ''itemLabel'' of Inl e \<Rightarrow> Inl e | Inr label \<Rightarrow>
      case binding_value item ''item'' of Inl e \<Rightarrow> Inl e | Inr uri \<Rightarrow>
      case as_str uri of Inl e \<Rightarrow> Inl e | Inr uri_s \<Rightarrow>
      let entry = [(''label'', label), (''id'', JStr (last (str_split_sep uri_s CHR ''/'')))]
      in if dtype = ''point''
         then (case binding_value item ''coord'' of Inl e \<Rightarrow> Inl e | Inr wkt \<Rightarrow>
               case as_str wkt of Inl e \<Rightarrow> Inl e | Inr wkt_s \<Rightarrow>
               case parse_point pyfloat wkt_s of Inl e \<Rightarrow> Inl e | Inr (lon, lat) \<Rightarrow>
               Inr (JObj (entry @ [(''lat'', JFloat lat), (''lng'', JFloat lon)])))
         else if dtype = ''polygon''
         then (case binding_value item ''geoShapeUrl'' of Inl e \<Rightarrow> Inl e | Inr url \<Rightarrow>
               Inr (JObj (entry @ [(''geoShapeUrl'', url)])))
         else Inr (JObj entry))"

text \<open>The \<open>for\<close> loop: an exception in the body skips the row (\<open>continue\<close>).\<close>

fun parse_loop ::
  "(string \<Rightarrow> 'f option) \<Rightarrow> string \<Rightarrow> 'f json list \<Rightarrow> 'f json list \<Rightarrow> 'f json list" where
  "parse_loop pyfloat dtype results [] = results"
| "parse_loop pyfloat dtype results (item # bindings) =
     (case parse_row pyfloat item dtype of
        Inl e \<Rightarrow> parse_loop pyfloat dtype results bindings
      | Inr entry \<Rightarrow> parse_loop pyfloat dtype (results @ [entry]) bindings)"

text \<open>\<open>parse_results\<close>: \<open>data['results']['bindings']\<close> is read outside the \<open>try\<close>, so an
  exception there leaves the function.\<close>

definition parse_results ::
  "(string \<Rightarrow> 'f option) \<Rightarrow> 'f json \<Rightarrow> string \<Rightarrow> py_error + 'f json list" where
  "parse_results pyfloat data dtype =
     (case py_getitem data ''results'' of Inl e \<Rightarrow> Inl e | Inr r \<Rightarrow>
      case py_getitem r ''bindings'' of Inl e \<Rightarrow> Inl e | Inr bindings \<Rightarrow>
      case py_iter bindings of Inl e \<Rightarrow> Inl e | Inr items \<Rightarrow>
      Inr (parse_loop pyfloat dtype [] items))"

text \<open>
  The specification's reading of a binding row, for comparison with the code: the string
  a variable is bound to, the fields a dataset type requires, whether a row is kept, and
  the record a kept row becomes.
\<close>

definition field :: "'f json \<Rightarrow> string \<Rightarrow> string option" where
  "field row var =
     (case row of
        JObj kvs \<Rightarrow>
          (case map_of kvs var of
             Some (JObj b) \<Rightarrow> (case map_of b ''value'' of Some (JStr s) \<Rightarrow> Some s | _ \<Rightarrow> None)
           | _ \<Rightarrow> None)
      | _ \<Rightarrow> None)"







text \<open>Example data: a stand-in for \<open>float\<close> on the two literals of the examples, binding
  rows for Paris, Berlin and a row without coordinates, and a query result of three rows.\<close>

definition float_stub :: "string \<Rightarrow> rat option" where
  "float_stub s =
     (if s = ''2.3522'' then Some (23522 / 10000)
      else if s = ''48.8566'' then Some (488566 / 10000)
      else if s = ''13.405'' then Some (13405 / 1000)
      else if s = ''52.52'' then Some (5252 / 100)
      else None)"

definition bound :: "string \<Rightarrow> rat json" where
  "bound s = JObj [(''type'', JStr ''literal''), (''value'', JStr s)]"

definition paris_row :: "rat json" where
  "paris_row =
     JObj [(''item'', bound ''http://www.wikidata.org/entity/Q90''),
           (''itemLabel'', bound ''Paris''),
           (''coord'', bound ''Point(2.3522 48.8566)'')]"

definition nowhere_row :: "rat json" where
  "nowhere_row =
     JObj [(''item'', bound ''http://www.wikidata.org/entity/Q1''),
           (''itemLabel'', bound ''Nowhere'')]"

definition berlin_row :: "rat json" where
  "berlin_row =
     JObj [(''item'', bound ''http://www.wikidata.org/entity/Q64''),
           (''itemLabel'', bound ''Berlin''),
           (''coord'', bound ''Point(13.405 52.52)'')]"

definition query_result :: "rat json list \<Rightarrow> rat json" where
  "query_result rows =
     JObj [(''head'', JObj [(''vars'', JArr [])]),
           (''results'', JObj [(''bindings'', JArr rows)])]"

text \<open>A number as a WKT literal writes it: a non-empty run of digits, sign, decimal point
  and exponent characters.\<close>

definition number_token :: "string \<Rightarrow> bool" where
  "number_token s = (s \<noteq> [] \<and> list_all (\<lambda>c. c \<in> set ''0123456789.+-eE'') s)"

section \<open>The file system and the dataset store\<close>

text \<open>
  The file system holds regular files, identified by the path string the server opens;
  directories are not modelled, and two path strings are two files.  The contents of a
  file are either the text of a JSON value (what \<open>json.dump\<close> writes and
  \<open>json.load\<close> reads back) or bytes that \<open>json.load\<close> rejects.  Opening a file
  for writing is a map update: that is what the code does on a path that names an
  existing regular file, and on the file names the server mints itself inside its
  directory \<open>static\<close>.  A statement about a file name read from the store therefore
  supposes a plain name (\<open>plain_name\<close> below) of an existing file.
\<close>

datatype 'f content = Json_text "'f json" | Other_bytes string

type_synonym 'f fs = "string \<Rightarrow> 'f content option"

fun json_load :: "'f content \<Rightarrow> py_error + 'f json" where
  "json_load (Json_text j) = Inr j"
| "json_load (Other_bytes s) = Inl JSONDecodeError"

text \<open>\<open>os.path.join(a, b)\<close> on POSIX.\<close>

definition path_join :: "string \<Rightarrow> string \<Rightarrow> string" where
  "path_join a b =
     (if startswith b ''/'' then b
      else if a = [] \<or> last a = CHR ''/'' then a @ b
      else a @ ''/'' @ b)"

text \<open>How a request ends when it fails: an \<open>HTTPException\<close> the handler raises, or any
  other exception, which the framework answers with status 500.\<close>

datatype http_error = HTTPException nat string | Unhandled py_error

record SaveRequest =
  req_id :: "string option"
  req_config :: DatasetConfig
  req_name :: string
  req_description :: string
  req_prompt_template :: string
  req_sub_prompt_template :: "string option"

record DeleteRequest =
  del_id :: string

text \<open>\<open>fetch_sparql\<close>: the endpoint's JSON answer, or \<open>None\<close> after any exception.  The
  endpoint is a parameter.\<close>

definition fetch_sparql :: "(string \<Rightarrow> 'f json option) \<Rightarrow> string \<Rightarrow> 'f json option" where
  "fetch_sparql endpoint query = endpoint query"

text \<open>\<open>next((d for d in datasets if d['id'] == dataset_id), None)\<close>.\<close>

fun find_entry :: "'f json list \<Rightarrow> string \<Rightarrow> py_error + 'f json option" where
  "find_entry [] dataset_id = Inr None"
| "find_entry (d # ds) dataset_id =
     (case py_getitem d ''id'' of
        Inl e \<Rightarrow> Inl e
      | Inr v \<Rightarrow> if v = JStr dataset_id then Inr (Some d) else find_entry ds dataset_id)"

text \<open>The loop \<open>for i, d in enumerate(datasets): if d['id'] == req.id: datasets[i] =
  new_entry; break\<close>, on the elements of a list.\<close>

fun replace_entry :: "'f json list \<Rightarrow> string \<Rightarrow> 'f json \<Rightarrow> py_error + 'f json list" where
  "replace_entry [] dataset_id new_entry = Inr []"
| "replace_entry (d # ds) dataset_id new_entry =
     (case py_getitem d ''id'' of
        Inl e \<Rightarrow> Inl e
      | Inr v \<Rightarrow>
          if v = JStr dataset_id then Inr (new_entry # ds)
          else (case replace_entry ds dataset_id new_entry of
                  Inl e \<Rightarrow> Inl e
                | Inr ds' \<Rightarrow> Inr (d # ds')))"

text \<open>The same loop on whatever \<open>json.load\<close> returned.  The keys of a dictionary and the
  characters of a string are strings, on which \<open>d['id']\<close> raises: for those the loop
  raises at the first item or visits nothing.\<close>

definition replace_in :: "'f json \<Rightarrow> string \<Rightarrow> 'f json \<Rightarrow> py_error + 'f json" where
  "replace_in datasets dataset_id new_entry =
     (case datasets of
        JArr ds \<Rightarrow>
          (case replace_entry ds dataset_id new_entry of Inl e \<Rightarrow> Inl e | Inr ds' \<Rightarrow> Inr (JArr ds'))
      | _ \<Rightarrow>
          (case py_iter datasets of
             Inl e \<Rightarrow> Inl e
           | Inr ds \<Rightarrow>
               (case replace_entry ds dataset_id new_entry of
                  Inl e \<Rightarrow> Inl e
                | Inr ds' \<Rightarrow> Inr datasets)))"

text \<open>\<open>datasets.append(new_entry)\<close>: only a list has \<open>append\<close>.\<close>

definition append_to :: "'f json \<Rightarrow> 'f json \<Rightarrow> py_error + 'f json" where
  "append_to datasets new_entry =
     (case datasets of JArr ds \<Rightarrow> Inr (JArr (ds @ [new_entry])) | _ \<Rightarrow> Inl AttributeError)"

text \<open>\<open>[d for d in datasets if d['id'] != req.id]\<close>.\<close>

fun remove_entries :: "'f json list \<Rightarrow> string \<Rightarrow> py_error + 'f json list" where
  "remove_entries [] dataset_id = Inr []"
| "remove_entries (d # ds) dataset_id =
     (case py_getitem d ''id'' of
        Inl e \<Rightarrow> Inl e
      | Inr v \<Rightarrow>
          (case remove_entries ds dataset_id of
             Inl e \<Rightarrow> Inl e
           | Inr ds' \<Rightarrow> Inr (if v \<noteq> JStr dataset_id then d # ds' else ds')))"

text \<open>Loading the store in \<open>api_save\<close>: an absent document and one that \<open>json.load\<close>
  rejects both leave \<open>datasets = []\<close>.\<close>

definition load_datasets :: "'f fs \<Rightarrow> 'f json" where
  "load_datasets fs =
     (case fs ''datasets.json'' of
        None \<Rightarrow> JArr []
      | Some c \<Rightarrow> (case json_load c of Inl e \<Rightarrow> JArr [] | Inr j \<Rightarrow> j))"

text \<open>\<open>req.config.dict()\<close>.\<close>

definition config_dict :: "DatasetConfig \<Rightarrow> 'f json" where
  "config_dict config =
     JObj [(''item_type'', JStr (item_type config)),
           (''constraints'',
              JArr (map (\<lambda>c. JObj [(''property'', JStr (property c)), (''value'', JStr (value_c c))])
                     (constraints config))),
           (''dataset_type'', JStr (dataset_type config)),
           (''min_pop'', JInt (min_pop config)),
           (''exclude_dissolved'', JBool (exclude_dissolved config)),
           (''limit'', JInt (limit config))]"

text \<open>The metadata entry \<open>api_save\<close> builds, with its \<open>data_keys\<close>.\<close>

definition new_entry :: "SaveRequest \<Rightarrow> string \<Rightarrow> 'f json \<Rightarrow> 'f json" where
  "new_entry req dataset_id filename =
     JObj [(''id'', JStr dataset_id),
           (''name'', JStr (req_name req)),
           (''description'', JStr (req_description req)),
           (''type'', JStr (dataset_type (req_config req))),
           (''filename'', filename),
           (''prompt_template'', JStr (req_prompt_template req)),
           (''sub_prompt_template'',
              (case req_sub_prompt_template req of None \<Rightarrow> JNull | Some s \<Rightarrow> JStr s)),
           (''config'', config_dict (req_config req)),
           (''data_keys'',
              JObj ((''label'', JStr ''label'')
                    # (if dataset_type (req_config req) = ''point''
                       then [(''lat'', JStr ''lat''), (''lng'', JStr ''lng'')]
                       else [(''geoShapeUrl'', JStr ''geoShapeUrl'')])))]"

text \<open>\<open>if req.id\<close>: the id is present and not the empty string.\<close>

definition given_id :: "SaveRequest \<Rightarrow> string option" where
  "given_id req = (case req_id req of None \<Rightarrow> None | Some i \<Rightarrow> if i = [] then None else Some i)"

text \<open>``Determine ID and Filename'': the id and the file name of the entry, or the way
  the request fails.  \<open>t_id\<close> and \<open>t_file\<close> are the two readings \<open>int(time.time())\<close>.\<close>

definition id_and_filename ::
  "int \<Rightarrow> int \<Rightarrow> ('f::zero) json \<Rightarrow> SaveRequest \<Rightarrow> http_error + (string \<times> 'f json)" where
  "id_and_filename t_id t_file datasets req =
     (case given_id req of
        Some dataset_id \<Rightarrow>
          (case py_iter datasets of
             Inl e \<Rightarrow> Inl (Unhandled e)
           | Inr ds \<Rightarrow>
               (case find_entry ds dataset_id of
                  Inl e \<Rightarrow> Inl (Unhandled e)
                | Inr None \<Rightarrow> Inl (HTTPException 404 ''Dataset not found'')
                | Inr (Some existing_entry) \<Rightarrow>
                    if \<not> truthy existing_entry then Inl (HTTPException 404 ''Dataset not found'')
                    else (case py_getitem existing_entry ''filename'' of
                            Inl e \<Rightarrow> Inl (Unhandled e)
                          | Inr filename \<Rightarrow> Inr (dataset_id, filename))))
      | None \<Rightarrow>
          Inr (''custom_'' @ str_int t_id, JStr (''dataset_'' @ str_int t_file @ ''.json'')))"

text \<open>
  \<open>api_save\<close>.  The result is the response or the error, and the file system the request
  leaves behind.  \<open>os.path.join\<close> raises \<open>TypeError\<close> on a file name that is not a
  string.
\<close>

definition api_save ::
  "(string \<Rightarrow> 'f option) \<Rightarrow> (string \<Rightarrow> 'f json option) \<Rightarrow> int \<Rightarrow> int \<Rightarrow> ('f::zero) fs \<Rightarrow> SaveRequest
     \<Rightarrow> (http_error + 'f json) \<times> 'f fs" where
  "api_save pyfloat endpoint t_id t_file fs req =
     (let query = build_query (req_config req) in
      case fetch_sparql endpoint query of
        None \<Rightarrow> (Inl (HTTPException 500 ''Failed to fetch data''), fs)
      | Some raw_data \<Rightarrow>
          if \<not> truthy raw_data then (Inl (HTTPException 500 ''Failed to fetch data''), fs)
          else
            (case parse_results pyfloat raw_data (dataset_type (req_config req)) of
               Inl e \<Rightarrow> (Inl (Unhandled e), fs)
             | Inr parsed_data \<Rightarrow>
                 if parsed_data = [] then (Inl (HTTPException 400 ''No items found to save''), fs)
                 else
                   (let datasets = load_datasets fs in
                    case id_and_filename t_id t_file datasets req of
                      Inl err \<Rightarrow> (Inl err, fs)
                    | Inr (dataset_id, filename) \<Rightarrow>
                        (case filename of
                           JStr filename_s \<Rightarrow>
                             (let filepath = path_join ''static'' filename_s;
                                  fs = fs(filepath \<mapsto> Json_text (JArr parsed_data));
                                  entry = new_entry req dataset_id filename
                              in case (if given_id req \<noteq> None
                                       then replace_in datasets dataset_id entry
                                       else append_to datasets entry) of
                                   Inl e \<Rightarrow> (Inl (Unhandled e), fs)
                                 | Inr datasets \<Rightarrow>
                                     (Inr (JObj [(''message'', JStr ''Dataset saved successfully''),
                                                 (''id'', JStr dataset_id)]),
                                      fs(''datasets.json'' \<mapsto> Json_text datasets)))
                         | _ \<Rightarrow> (Inl (Unhandled TypeError), fs)))))"

text \<open>
  \<open>api_delete\<close>.  \<open>remove_ok\<close> says whether \<open>os.remove\<close> succeeds; when it raises, the
  handler prints and goes on.
\<close>

definition api_delete ::
  "bool \<Rightarrow> ('f::zero) fs \<Rightarrow> DeleteRequest \<Rightarrow> (http_error + 'f json) \<times> 'f fs" where
  "api_delete remove_ok fs req =
     (case fs ''datasets.json'' of
        None \<Rightarrow> (Inl (HTTPException 404 ''No datasets found''), fs)
      | Some c \<Rightarrow>
          (case json_load c of
             Inl e \<Rightarrow> (Inl (Unhandled e), fs)
           | Inr datasets \<Rightarrow>
               (case py_iter datasets of
                  Inl e \<Rightarrow> (Inl (Unhandled e), fs)
                | Inr ds \<Rightarrow>
                    (case find_entry ds (del_id req) of
                       Inl e \<Rightarrow> (Inl (Unhandled e), fs)
                     | Inr None \<Rightarrow> (Inl (HTTPException 404 ''Dataset not found''), fs)
                     | Inr (Some target) \<Rightarrow>
                         if \<not> truthy target
                         then (Inl (HTTPException 404 ''Dataset not found''), fs)
                         else
                           (case py_getitem target ''filename'' of
                              Inl e \<Rightarrow> (Inl (Unhandled e), fs)
                            | Inr (JStr filename) \<Rightarrow>
                                (let filepath = path_join ''static'' filename;
                                     fs = (if fs filepath \<noteq> None \<and> remove_ok
                                           then fs(filepath := None) else fs)
                                 in case remove_entries ds (del_id req) of
                                      Inl e \<Rightarrow> (Inl (Unhandled e), fs)
                                    | Inr ds' \<Rightarrow>
                                        (Inr (JObj [(''message'', JStr ''Dataset deleted'')]),
                                         fs(''datasets.json'' \<mapsto> Json_text (JArr ds'))))
                            | Inr _ \<Rightarrow> (Inl (Unhandled TypeError), fs))))))"

text \<open>
  A plain file name: a single path component (no \<open>/\<close>, no NUL character) that is not
  empty and neither \<open>.\<close> nor \<open>..\<close>.  Joined to \<open>static\<close> it names an entry of that
  directory, never the directory itself, its parent or the store document.
\<close>

definition plain_name :: "string \<Rightarrow> bool" where
  "plain_name f =
     (f \<noteq> [] \<and> f \<noteq> ''.'' \<and> f \<noteq> ''..'' \<and> list_all (\<lambda>c. c \<noteq> CHR ''/'' \<and> c \<noteq> CHR 0x00) f)"

text \<open>
  A well-formed store, as the data model has it: the document is absent, or it is a list
  of entries that each carry a non-empty string id and a plain file name.
\<close>

definition entry_ok :: "'f json \<Rightarrow> bool" where
  "entry_ok d =
     (case py_getitem d ''id'' of
        Inr (JStr i) \<Rightarrow>
          i \<noteq> [] \<and> (case py_getitem d ''filename'' of Inr (JStr f) \<Rightarrow> plain_name f | _ \<Rightarrow> False)
      | _ \<Rightarrow> False)"

definition store_ok :: "'f fs \<Rightarrow> bool" where
  "store_ok fs =
     (case fs ''datasets.json'' of
        None \<Rightarrow> True
      | Some (Json_text (JArr ds)) \<Rightarrow> list_all entry_ok ds
      | _ \<Rightarrow> False)"

section \<open>The map shape cache\<close>

text \<open>
  \<open>proxy_map\<close>.  The digest \<open>hashlib.md5(url.encode()).hexdigest()\<close> and the remote
  server (the bytes it answers with, or the message of the exception) are parameters.
  The state is the file system together with the list of URLs fetched so far.
\<close>

datatype 'f response = FileResponse "'f content" | JSONResponse nat "'f json"

definition MAPS_DIR :: string where
  "MAPS_DIR = path_join ''static'' ''maps''"

definition cache_path :: "(string \<Rightarrow> string) \<Rightarrow> string \<Rightarrow> string" where
  "cache_path md5_hex url =
     (let url = str_replace ''+'' '' '' url;
          filename = md5_hex url @ ''.json''
      in path_join MAPS_DIR filename)"

definition proxy_map ::
  "(string \<Rightarrow> string) \<Rightarrow> (string \<Rightarrow> string + 'f content) \<Rightarrow> 'f fs \<times> string list \<Rightarrow> string
     \<Rightarrow> 'f response \<times> ('f fs \<times> string list)" where
  "proxy_map md5_hex http_get state url =
     (let fs = fst state;
          fetched = snd state;
          file_path = cache_path md5_hex url;
          url = str_replace ''+'' '' '' url
      in case fs file_path of
           Some stored \<Rightarrow> (FileResponse stored, (fs, fetched))
         | None \<Rightarrow>
             (case http_get url of
                Inl message \<Rightarrow>
                  (JSONResponse 500 (JObj [(''message'', JStr message)]), (fs, fetched @ [url]))
              | Inr bytes \<Rightarrow>
                  (FileResponse bytes, (fs(file_path \<mapsto> bytes), fetched @ [url]))))"

text \<open>Example data: endpoints that answer every query with two cities, or with one row
  without coordinates; two save requests; a digest and a remote server for the cache.\<close>

definition two_cities :: "string \<Rightarrow> rat json option" where
  "two_cities query = Some (query_result [paris_row, berlin_row])"

definition no_coordinates :: "string \<Rightarrow> rat json option" where
  "no_coordinates query = Some (query_result [nowhere_row])"

definition save_cities :: SaveRequest where
  "save_cities =
     \<lparr>req_id = None, req_config = cities_config, req_name = ''Cities'',
      req_description = ''Cities outside Germany'', req_prompt_template = ''Where is {label}?'',
      req_sub_prompt_template = Some []\<rparr>"

definition save_capitals :: SaveRequest where
  "save_capitals =
     \<lparr>req_id = None, req_config = cities_config\<lparr>item_type := ''Q5119''\<rparr>, req_name = ''Capitals'',
      req_description = ''Capital cities'', req_prompt_template = ''Where is {label}?'',
      req_sub_prompt_template = None\<rparr>"

text \<open>An entry that carries an id other than \<open>dataset_id\<close>.\<close>

definition other_id :: "string \<Rightarrow> 'f json \<Rightarrow> bool" where
  "other_id dataset_id d =
     (case py_getitem d ''id'' of Inl e \<Rightarrow> False | Inr v \<Rightarrow> v \<noteq> JStr dataset_id)"

definition one_map :: "string \<Rightarrow> string + rat content" where
  "one_map url =
     (if url = ''https://commons.wikimedia.org/data/main/Data:Berlin map.map''
      then Inr (Json_text (JObj [(''type'', JStr ''FeatureCollection'')]))
      else Inl ''404 Client Error'')"

definition offline :: "string \<Rightarrow> string + rat content" where
  "offline url = Inl ''Connection refused''"

definition digest_stub :: "string \<Rightarrow> string" where
  "digest_stub url = str_nat (length url)"

definition update_capitals :: SaveRequest where
  "update_capitals =
     save_capitals\<lparr>req_id := Some ''custom_1700000100'', req_name := ''Capitals of Europe''\<rparr>"

definition two_datasets :: "rat json list" where
  "two_datasets =
     [new_entry save_cities ''custom_1700000000'' (JStr ''dataset_1700000000.json''),
      new_entry save_capitals ''custom_1700000100'' (JStr ''dataset_1700000100.json'')]"

section \<open>Properties of the query builder\<close>

lemma constraints_loop_clauses:
  "constraints_loop sparql cs = sparql @ concat (map constraint_clause cs)"
  by (induction cs arbitrary: sparql)
     (auto simp: Let_def startswith_def constraint_clause_def filter_block_def
        triple_pattern_def split: list.splits)

lemma if_append1: "(if c then s @ x else s) = s @ (if c then x else [])"
  by simp

lemma if_append2:
  "(if c then s @ x else s @ y) = s @ (if c then x else y)"
  by simp

lemma build_query_parts:
  "build_query config
     = query_head config @ concat (map constraint_clause (constraints config)) @ query_tail config"
  unfolding build_query_def Let_def constraints_loop_clauses query_head_def query_tail_def
  apply (simp only: if_append2 if_append1)
  apply (simp only: append_assoc)
  done

text \<open>The two query builders of the repository agree.\<close>

lemma constraints_loop_cli_eq:
  "constraints_loop_cli sparql (map (\<lambda>c. (property c, value_c c)) cs) = constraints_loop sparql cs"
  by (induction cs arbitrary: sparql) (simp_all add: Let_def)

lemma build_query_cli_eq:
  "build_query_cli (item_type config) (map (\<lambda>c. (property c, value_c c)) (constraints config))
      (dataset_type config) (min_pop config) (exclude_dissolved config) (limit config)
     = build_query config"
  unfolding build_query_cli_def build_query_def constraints_loop_cli_eq by (rule refl)

text \<open>
  Claim C9.  The constraints contribute to the compiled query exactly the concatenation of
  their clauses, in list order, between a head and a tail that do not depend on the
  constraints.  The clause of a constraint whose property starts with the marker \<open>-\<close>
  is the negated-existence filter block over the property without the marker and the
  given value, and it is not a positive triple pattern for any property and value; the
  clause of a constraint without the marker is the positive triple pattern.
\<close>

theorem constraint_marker_compiles:
  "(\<exists>head tail. \<forall>cs. build_query (cfg\<lparr>constraints := cs\<rparr>)
        = head @ concat (map constraint_clause cs) @ tail)
   \<and> (startswith (property c) ''-'' \<longrightarrow>
        constraint_clause c
          = ''  FILTER NOT EXISTS { ?item wdt:'' @ drop 1 (property c) @ '' wd:'' @ value_c c
              @ ''. }\<newline>''
        \<and> (\<forall>p v. constraint_clause c \<noteq> ''  ?item wdt:'' @ p @ '' wd:'' @ v @ ''.\<newline>''))
   \<and> (\<not> startswith (property c) ''-'' \<longrightarrow>
        constraint_clause c = ''  ?item wdt:'' @ property c @ '' wd:'' @ value_c c @ ''.\<newline>'')"
proof (intro conjI impI)
  show "\<exists>head tail. \<forall>cs. build_query (cfg\<lparr>constraints := cs\<rparr>)
        = head @ concat (map constraint_clause cs) @ tail"
  proof (intro exI allI)
    fix cs
    show "build_query (cfg\<lparr>constraints := cs\<rparr>)
            = query_head cfg @ concat (map constraint_clause cs) @ query_tail cfg"
      unfolding build_query_parts query_head_def query_tail_def
      by (cases cfg) (simp only: DatasetConfig.select_convs DatasetConfig.update_convs)
  qed
next
  assume m: "startswith (property c) ''-''"
  then obtain p where p: "property c = CHR ''-'' # p"
    by (cases "property c") (simp_all add: startswith_def)
  then show "constraint_clause c
      = ''  FILTER NOT EXISTS { ?item wdt:'' @ drop 1 (property c) @ '' wd:'' @ value_c c
          @ ''. }\<newline>''"
    by (simp add: constraint_clause_def filter_block_def)
  show "\<forall>p v. constraint_clause c \<noteq> ''  ?item wdt:'' @ p @ '' wd:'' @ v @ ''.\<newline>''"
    using p by (simp add: constraint_clause_def filter_block_def)
next
  assume "\<not> startswith (property c) ''-''"
  then show "constraint_clause c = ''  ?item wdt:'' @ property c @ '' wd:'' @ value_c c @ ''.\<newline>''"
    by (cases "property c") (simp_all add: startswith_def constraint_clause_def triple_pattern_def)
qed

theorem constraint_marker_witness:
  "startswith ''-P17'' ''-''
   \<and> constraint_clause \<lparr>property = ''-P17'', value_c = ''Q183''\<rparr>
       = ''  FILTER NOT EXISTS { ?item wdt:P17 wd:Q183. }\<newline>''
   \<and> \<not> startswith ''P30'' ''-''
   \<and> constraint_clause \<lparr>property = ''P30'', value_c = ''Q46''\<rparr>
       = ''  ?item wdt:P30 wd:Q46.\<newline>''"
proof -
  have a: "startswith ''-P17'' ''-''" and b: "\<not> startswith ''P30'' ''-''"
    by (simp_all add: startswith_def)
  from a constraint_marker_compiles[of undefined "\<lparr>property = ''-P17'', value_c = ''Q183''\<rparr>"]
  have "constraint_clause \<lparr>property = ''-P17'', value_c = ''Q183''\<rparr>
       = ''  FILTER NOT EXISTS { ?item wdt:P17 wd:Q183. }\<newline>''"
    by simp
  moreover from b constraint_marker_compiles[of undefined "\<lparr>property = ''P30'', value_c = ''Q46''\<rparr>"]
  have "constraint_clause \<lparr>property = ''P30'', value_c = ''Q46''\<rparr>
       = ''  ?item wdt:P30 wd:Q46.\<newline>''"
    by simp
  ultimately show ?thesis using a b by simp
qed

lemma sublist_sep:
  assumes "c \<notin> set n"
  shows "sublist n (a @ c # b) \<longleftrightarrow> sublist n a \<or> sublist n b"
proof
  assume "sublist n (a @ c # b)"
  then consider "sublist n a" | "sublist n (c # b)"
    | xs1 xs2 where "n = xs1 @ xs2" "suffix xs1 a" "prefix xs2 (c # b)"
    unfolding sublist_append by blast
  then show "sublist n a \<or> sublist n b"
  proof cases
    case 1 then show ?thesis by simp
  next
    case 2
    then have "prefix n (c # b) \<or> sublist n b" by (simp add: sublist_Cons_right)
    with assms show ?thesis by (cases n) auto
  next
    case 3
    with assms show ?thesis by (cases xs2) (auto simp: suffix_imp_sublist)
  qed
next
  assume "sublist n a \<or> sublist n b"
  then show "sublist n (a @ c # b)"
    by (metis sublist_append sublist_Cons_right)
qed

lemma free_app_hd:
  assumes "\<not> sublist n a" "\<not> sublist n b" "b = [] \<or> hd b \<notin> set n"
  shows "\<not> sublist n (a @ b)"
proof (cases b)
  case Nil with assms show ?thesis by simp
next
  case (Cons c b')
  with assms have "c \<notin> set n" "\<not> sublist n b'" by (auto simp: sublist_Cons_right)
  with assms(1) show ?thesis unfolding Cons by (simp add: sublist_sep)
qed

lemma free_app_last:
  assumes "\<not> sublist n a" "\<not> sublist n b" "a = [] \<or> last a \<notin> set n"
  shows "\<not> sublist n (a @ b)"
proof (cases a rule: rev_cases)
  case Nil with assms show ?thesis by simp
next
  case (snoc a' c)
  with assms have c: "c \<notin> set n" by simp
  have "\<not> sublist n a'" using assms(1) snoc by (metis sublist_append)
  with c assms(2) show ?thesis unfolding snoc by (simp add: sublist_sep)
qed

lemma free_sandwich:
  assumes "\<not> sublist n a" "a = [] \<or> last a \<notin> set n" "\<not> sublist n u"
    "\<not> sublist n b" "b = [] \<or> hd b \<notin> set n"
  shows "\<not> sublist n (a @ u @ b)"
  by (intro free_app_last free_app_hd assms)

lemma set_str_nat: "set (str_nat k) \<subseteq> set ''0123456789''"
proof (induction k rule: str_nat.induct)
  case (1 k)
  have d: "d < 10 \<Longrightarrow> digit_char d \<in> set ''0123456789''" for d
    unfolding digit_char_def by (rule nth_mem) simp
  show ?case
  proof (cases "k < 10")
    case True then show ?thesis using d[of k] by (subst str_nat.simps) simp
  next
    case False
    then show ?thesis using 1 d[of "k mod 10"] by (subst str_nat.simps) simp
  qed
qed

lemma set_str_int: "set (str_int i) \<subseteq> set ''-0123456789''"
proof -
  have sub: "set ''0123456789'' \<subseteq> set ''-0123456789''"
    by (simp add: subset_insertI)
  show ?thesis
  proof (cases "i < 0")
    case True
    have "set (str_nat (nat (- i))) \<subseteq> set ''-0123456789''"
      using set_str_nat sub by (rule subset_trans)
    with True show ?thesis unfolding str_int_def by simp
  next
    case False
    have "set (str_nat (nat i)) \<subseteq> set ''-0123456789''"
      using set_str_nat sub by (rule subset_trans)
    with False show ?thesis unfolding str_int_def by simp
  qed
qed

lemma str_int_free:
  assumes "CHR ''?'' \<in> set n"
  shows "\<not> sublist n (str_int i)"
proof
  assume "sublist n (str_int i)"
  then have "set n \<subseteq> set (str_int i)" by (rule set_mono_sublist)
  with assms set_str_int[of i] have "CHR ''?'' \<in> set ''-0123456789''" by blast
  then show False by simp
qed

lemma clause_free:
  assumes n: "n = ''?geoShapeUrl'' \<or> n = ''?coord''"
    and p: "\<not> sublist n (property c)" and v: "\<not> sublist n (value_c c)"
  shows "\<not> sublist n (constraint_clause c)"
proof -
  have tp: "\<not> sublist n (triple_pattern q (value_c c))" if "\<not> sublist n q" for q
    unfolding triple_pattern_def
  proof (intro free_sandwich that v)
    show "\<not> sublist n ''  ?item wdt:''" using n by (elim disjE; hypsubst) code_simp+
    show "''  ?item wdt:'' = [] \<or> last ''  ?item wdt:'' \<notin> set n"
      using n by (elim disjE; hypsubst) code_simp+
    show "\<not> sublist n '' wd:''" using n by (elim disjE; hypsubst) code_simp+
    show "'' wd:'' = [] \<or> last '' wd:'' \<notin> set n" using n by (elim disjE; hypsubst) code_simp+
    show "\<not> sublist n ''.\<newline>''" using n by (elim disjE; hypsubst) code_simp+
    show "''.\<newline>'' = [] \<or> hd ''.\<newline>'' \<notin> set n" using n by (elim disjE; hypsubst) code_simp+
    show "'' wd:'' @ value_c c @ ''.\<newline>'' = [] \<or> hd ('' wd:'' @ value_c c @ ''.\<newline>'') \<notin> set n"
      using n by auto
  qed
  have fb: "\<not> sublist n (filter_block q (value_c c))" if "\<not> sublist n q" for q
    unfolding filter_block_def
  proof (intro free_sandwich that v)
    show "\<not> sublist n ''  FILTER NOT EXISTS { ?item wdt:''"
      using n by (elim disjE; hypsubst) code_simp+
    show "''  FILTER NOT EXISTS { ?item wdt:'' = [] \<or> last ''  FILTER NOT EXISTS { ?item wdt:'' \<notin> set n"
      using n by (elim disjE; hypsubst) code_simp+
    show "\<not> sublist n '' wd:''" using n by (elim disjE; hypsubst) code_simp+
    show "'' wd:'' = [] \<or> last '' wd:'' \<notin> set n" using n by (elim disjE; hypsubst) code_simp+
    show "\<not> sublist n ''. }\<newline>''" using n by (elim disjE; hypsubst) code_simp+
    show "''. }\<newline>'' = [] \<or> hd ''. }\<newline>'' \<notin> set n" using n by (elim disjE; hypsubst) code_simp+
    show "'' wd:'' @ value_c c @ ''. }\<newline>'' = [] \<or> hd ('' wd:'' @ value_c c @ ''. }\<newline>'') \<notin> set n"
      using n by auto
  qed
  show ?thesis
  proof (cases "property c")
    case Nil
    with p tp[of "[]"] show ?thesis by (simp add: constraint_clause_def)
  next
    case (Cons m q)
    with p have "\<not> sublist n q" by (simp add: sublist_Cons_right)
    with p Cons tp[of "m # q"] fb[of q] show ?thesis by (simp add: constraint_clause_def)
  qed
qed

lemma clause_starts: "constraint_clause c \<noteq> [] \<and> hd (constraint_clause c) = CHR '' ''"
  by (simp add: constraint_clause_def triple_pattern_def filter_block_def split: list.splits)

lemma clauses_free:
  assumes n: "n = ''?geoShapeUrl'' \<or> n = ''?coord''"
    and cs: "\<forall>c\<in>set cs. \<not> sublist n (property c) \<and> \<not> sublist n (value_c c)"
  shows "\<not> sublist n (concat (map constraint_clause cs))
         \<and> (concat (map constraint_clause cs) = [] \<or> hd (concat (map constraint_clause cs)) \<notin> set n)"
  using cs
proof (induction cs)
  case Nil
  then show ?case using n by auto
next
  case (Cons c cs)
  have sp: "CHR '' '' \<notin> set n" using n by auto
  from Cons have ih: "\<not> sublist n (concat (map constraint_clause cs))"
    "concat (map constraint_clause cs) = [] \<or> hd (concat (map constraint_clause cs)) \<notin> set n"
    by simp_all
  have "\<not> sublist n (constraint_clause c)" using Cons.prems by (intro clause_free n) simp_all
  then have "\<not> sublist n (constraint_clause c @ concat (map constraint_clause cs))"
    using ih by (intro free_app_hd)
  moreover have "hd (constraint_clause c @ concat (map constraint_clause cs)) \<notin> set n"
    using clause_starts[of c] sp by simp
  ultimately show ?case by simp
qed


lemma lit_good: "sep_lit n l \<Longrightarrow> \<not> sublist n r \<Longrightarrow> good n (l @ r)"
  unfolding good_def sep_lit_def by (simp add: free_app_last)

lemma usr_free: "\<not> sublist n u \<Longrightarrow> good n r \<Longrightarrow> \<not> sublist n (u @ r)"
  unfolding good_def by (simp add: free_app_hd)

lemma good_free: "good n s \<Longrightarrow> \<not> sublist n s"
  by (simp add: good_def)


lemma tail_good_point:
  assumes dt: "dataset_type cfg = ''point''"
  shows "good ''?geoShapeUrl'' (query_tail cfg)"
proof -
  let ?n = "''?geoShapeUrl''"
  let ?rest = "''  ?item wikibase:sitelinks ?sitelinks.\<newline>''
     @ ''  SERVICE wikibase:label { bd:serviceParam wikibase:language ''
     @ [CHR 0x22] @ ''[AUTO_LANGUAGE],en'' @ [CHR 0x22] @ ''. }\<newline>''
     @ ''}\<newline>'' @ ''ORDER BY DESC(?sitelinks)\<newline>'' @ ''LIMIT ''"
  let ?t2 = "''  ?item wdt:P625 ?coord.\<newline>''"
  let ?dis = "''  FILTER NOT EXISTS { ?item wdt:P576 ?end. }\<newline>''"
  let ?popa = "''  ?item wdt:P1082 ?pop. FILTER(?pop >= ''"
  let ?popb = "'').\<newline>''"
  have q: "CHR ''?'' \<in> set ?n" by simp
  have r: "good ?n (?rest @ str_int (limit cfg))"
  proof (rule lit_good)
    show "sep_lit ?n ?rest" by code_simp
    show "\<not> sublist ?n (str_int (limit cfg))" using q by (rule str_int_free)
  qed
  have t: "good ?n (?t2 @ ?rest @ str_int (limit cfg))"
  proof (rule lit_good)
    show "sep_lit ?n ?t2" by code_simp
    show "\<not> sublist ?n (?rest @ str_int (limit cfg))" using r by (rule good_free)
  qed
  have d: "good ?n ((if exclude_dissolved cfg then ?dis else []) @ ?t2 @ ?rest @ str_int (limit cfg))"
  proof (cases "exclude_dissolved cfg")
    case True
    have "good ?n (?dis @ ?t2 @ ?rest @ str_int (limit cfg))"
    proof (rule lit_good)
      show "sep_lit ?n ?dis" by code_simp
      show "\<not> sublist ?n (?t2 @ ?rest @ str_int (limit cfg))" using t by (rule good_free)
    qed
    with True show ?thesis by (simp only: if_True)
  next
    case False
    with t show ?thesis by (simp only: if_False append_Nil)
  qed
  have p: "good ?n ((if min_pop cfg > 0 then ?popa @ str_int (min_pop cfg) @ ?popb else [])
      @ (if exclude_dissolved cfg then ?dis else []) @ ?t2 @ ?rest @ str_int (limit cfg))"
  proof (cases "min_pop cfg > 0")
    case True
    have "good ?n (?popb @ (if exclude_dissolved cfg then ?dis else []) @ ?t2 @ ?rest
       @ str_int (limit cfg))"
    proof (rule lit_good)
      show "sep_lit ?n ?popb" by code_simp
      show "\<not> sublist ?n ((if exclude_dissolved cfg then ?dis else []) @ ?t2 @ ?rest
         @ str_int (limit cfg))" using d by (rule good_free)
    qed
    then have "\<not> sublist ?n (str_int (min_pop cfg) @ ?popb
       @ (if exclude_dissolved cfg then ?dis else []) @ ?t2 @ ?rest @ str_int (limit cfg))"
      by (rule usr_free[OF str_int_free[OF q]])
    then have "good ?n (?popa @ str_int (min_pop cfg) @ ?popb
       @ (if exclude_dissolved cfg then ?dis else []) @ ?t2 @ ?rest @ str_int (limit cfg))"
    proof (rule lit_good[rotated])
      show "sep_lit ?n ?popa" by code_simp
    qed
    with True show ?thesis by (simp only: if_True append_assoc)
  next
    case False
    with d show ?thesis by (simp only: if_False append_Nil)
  qed
  have ne: "(''polygon'' = ''point'') = False" by simp
  show ?thesis
    using p unfolding query_tail_def by (simp only: dt ne if_True if_False simp_thms append_assoc)
qed

lemma tail_good_polygon:
  assumes dt: "dataset_type cfg = ''polygon''"
  shows "good ''?coord'' (query_tail cfg)"
proof -
  let ?n = "''?coord''"
  let ?rest = "''  ?item wikibase:sitelinks ?sitelinks.\<newline>''
     @ ''  SERVICE wikibase:label { bd:serviceParam wikibase:language ''
     @ [CHR 0x22] @ ''[AUTO_LANGUAGE],en'' @ [CHR 0x22] @ ''. }\<newline>''
     @ ''}\<newline>'' @ ''ORDER BY DESC(?sitelinks)\<newline>'' @ ''LIMIT ''"
  let ?t2 = "''  ?item wdt:P3896 ?geoShapeUrl.\<newline>''"
  let ?dis = "''  FILTER NOT EXISTS { ?item wdt:P576 ?end. }\<newline>''"
  let ?popa = "''  ?item wdt:P1082 ?pop. FILTER(?pop >= ''"
  let ?popb = "'').\<newline>''"
  have q: "CHR ''?'' \<in> set ?n" by simp
  have r: "good ?n (?rest @ str_int (limit cfg))"
  proof (rule lit_good)
    show "sep_lit ?n ?rest" by code_simp
    show "\<not> sublist ?n (str_int (limit cfg))" using q by (rule str_int_free)
  qed
  have t: "good ?n (?t2 @ ?rest @ str_int (limit cfg))"
  proof (rule lit_good)
    show "sep_lit ?n ?t2" by code_simp
    show "\<not> sublist ?n (?rest @ str_int (limit cfg))" using r by (rule good_free)
  qed
  have d: "good ?n ((if exclude_dissolved cfg then ?dis else []) @ ?t2 @ ?rest @ str_int (limit cfg))"
  proof (cases "exclude_dissolved cfg")
    case True
    have "good ?n (?dis @ ?t2 @ ?rest @ str_int (limit cfg))"
    proof (rule lit_good)
      show "sep_lit ?n ?dis" by code_simp
      show "\<not> sublist ?n (?t2 @ ?rest @ str_int (limit cfg))" using t by (rule good_free)
    qed
    with True show ?thesis by (simp only: if_True)
  next
    case False
    with t show ?thesis by (simp only: if_False append_Nil)
  qed
  have p: "good ?n ((if min_pop cfg > 0 then ?popa @ str_int (min_pop cfg) @ ?popb else [])
      @ (if exclude_dissolved cfg then ?dis else []) @ ?t2 @ ?rest @ str_int (limit cfg))"
  proof (cases "min_pop cfg > 0")
    case True
    have "good ?n (?popb @ (if exclude_dissolved cfg then ?dis else []) @ ?t2 @ ?rest
       @ str_int (limit cfg))"
    proof (rule lit_good)
      show "sep_lit ?n ?popb" by code_simp
      show "\<not> sublist ?n ((if exclude_dissolved cfg then ?dis else []) @ ?t2 @ ?rest
         @ str_int (limit cfg))" using d by (rule good_free)
    qed
    then have "\<not> sublist ?n (str_int (min_pop cfg) @ ?popb
       @ (if exclude_dissolved cfg then ?dis else []) @ ?t2 @ ?rest @ str_int (limit cfg))"
      by (rule usr_free[OF str_int_free[OF q]])
    then have "good ?n (?popa @ str_int (min_pop cfg) @ ?popb
       @ (if exclude_dissolved cfg then ?dis else []) @ ?t2 @ ?rest @ str_int (limit cfg))"
    proof (rule lit_good[rotated])
      show "sep_lit ?n ?popa" by code_simp
    qed
    with True show ?thesis by (simp only: if_True append_assoc)
  next
    case False
    with d show ?thesis by (simp only: if_False append_Nil)
  qed
  have ne: "(''polygon'' = ''point'') = False" by simp
  show ?thesis
    using p unfolding query_tail_def by (simp only: dt ne if_True if_False simp_thms append_assoc)
qed

lemma head_free_point:
  assumes dt: "dataset_type cfg = ''point''" and it: "\<not> sublist ''?geoShapeUrl'' (item_type cfg)"
  shows "\<not> sublist ''?geoShapeUrl'' (query_head cfg)"
proof -
  let ?n = "''?geoShapeUrl''"
  let ?h = "''SELECT DISTINCT ?item ?itemLabel '' @ ''?coord '' @ ''?sitelinks '' @ ''WHERE {\<newline>''
     @ ''  ?item wdt:P31/wdt:P279* wd:''"
  have "\<not> sublist ?n ''.\<newline>''" "''.\<newline>'' = [] \<or> hd ''.\<newline>'' \<notin> set ?n"
    by code_simp+
  with it have u: "\<not> sublist ?n (item_type cfg @ ''.\<newline>'')" by (rule free_app_hd)
  have h: "\<not> sublist ?n ?h" by code_simp
  have l: "?h = [] \<or> last ?h \<notin> set ?n" by code_simp
  have ne: "(''polygon'' = ''point'') = False" by simp
  have "\<not> sublist ?n (?h @ item_type cfg @ ''.\<newline>'')"
    using h u l by (rule free_app_last)
  then show ?thesis
    unfolding query_head_def by (simp only: dt ne if_True if_False simp_thms append_assoc)
qed

lemma head_free_polygon:
  assumes dt: "dataset_type cfg = ''polygon''" and it: "\<not> sublist ''?coord'' (item_type cfg)"
  shows "\<not> sublist ''?coord'' (query_head cfg)"
proof -
  let ?n = "''?coord''"
  let ?h = "''SELECT DISTINCT ?item ?itemLabel '' @ ''?geoShapeUrl '' @ ''?sitelinks '' @ ''WHERE {\<newline>''
     @ ''  ?item wdt:P31/wdt:P279* wd:''"
  have "\<not> sublist ?n ''.\<newline>''" "''.\<newline>'' = [] \<or> hd ''.\<newline>'' \<notin> set ?n"
    by code_simp+
  with it have u: "\<not> sublist ?n (item_type cfg @ ''.\<newline>'')" by (rule free_app_hd)
  have h: "\<not> sublist ?n ?h" by code_simp
  have l: "?h = [] \<or> last ?h \<notin> set ?n" by code_simp
  have ne: "(''polygon'' = ''point'') = False" by simp
  have "\<not> sublist ?n (?h @ item_type cfg @ ''.\<newline>'')"
    using h u l by (rule free_app_last)
  then show ?thesis
    unfolding query_head_def by (simp only: dt ne if_True if_False simp_thms append_assoc)
qed


lemma sublist_app_left: "sublist n a \<Longrightarrow> sublist n (a @ b)"
  by (simp add: sublist_append)

lemma sublist_app_right: "sublist n b \<Longrightarrow> sublist n (a @ b)"
  by (simp add: sublist_append)

lemma not_sublist_mono: "sublist a b \<Longrightarrow> \<not> sublist a q \<Longrightarrow> \<not> sublist b q"
  using sublist_order.order_trans by blast

lemma hd_app_sep:
  "a = [] \<or> hd a \<notin> S \<Longrightarrow> b = [] \<or> hd b \<notin> S \<Longrightarrow> a @ b = [] \<or> hd (a @ b) \<notin> S"
  by (cases a) auto

lemma build_query_free:
  assumes n: "n = ''?geoShapeUrl'' \<or> n = ''?coord''"
    and h: "\<not> sublist n (query_head cfg)" and t: "good n (query_tail cfg)"
    and cs: "list_all (\<lambda>c. \<not> sublist n (property c) \<and> \<not> sublist n (value_c c)) (constraints cfg)"
  shows "\<not> sublist n (build_query cfg)"
proof -
  let ?cl = "concat (map constraint_clause (constraints cfg))"
  from cs have "\<forall>c\<in>set (constraints cfg). \<not> sublist n (property c) \<and> \<not> sublist n (value_c c)"
    by (simp add: list_all_iff)
  with n have c: "\<not> sublist n ?cl" "?cl = [] \<or> hd ?cl \<notin> set n"
    using clauses_free[of n "constraints cfg"] by simp_all
  from t have t': "\<not> sublist n (query_tail cfg)" "query_tail cfg = [] \<or> hd (query_tail cfg) \<notin> set n"
    by (simp_all add: good_def)
  have r: "\<not> sublist n (?cl @ query_tail cfg)" using c(1) t' by (rule free_app_hd)
  have s: "?cl @ query_tail cfg = [] \<or> hd (?cl @ query_tail cfg) \<notin> set n"
    using c(2) t'(2) by (rule hd_app_sep)
  show ?thesis
    unfolding build_query_parts using h r s by (rule free_app_hd)
qed

lemma point_clauses_present:
  assumes dt: "dataset_type cfg = ''point''"
  shows "sublist ''?coord '' (build_query cfg)"
    and "sublist ''  ?item wdt:P625 ?coord.\<newline>'' (build_query cfg)"
proof -
  have "sublist ''?coord '' (query_head cfg)"
    unfolding query_head_def by (simp only: dt simp_thms if_True) (rule sublist_appendI)
  then show "sublist ''?coord '' (build_query cfg)"
    unfolding build_query_parts by (rule sublist_app_left)
  have "sublist ''  ?item wdt:P625 ?coord.\<newline>'' (query_tail cfg)"
    unfolding query_tail_def
    by (simp only: dt simp_thms if_True) (intro sublist_app_right sublist_append_rightI)
  then show "sublist ''  ?item wdt:P625 ?coord.\<newline>'' (build_query cfg)"
    unfolding build_query_parts by (intro sublist_app_right)
qed

lemma polygon_clauses_present:
  assumes dt: "dataset_type cfg = ''polygon''"
  shows "sublist ''?geoShapeUrl '' (build_query cfg)"
    and "sublist ''  ?item wdt:P3896 ?geoShapeUrl.\<newline>'' (build_query cfg)"
proof -
  have ne: "(''polygon'' = ''point'') = False" by simp
  have "sublist ''?geoShapeUrl '' (query_head cfg)"
    unfolding query_head_def by (simp only: dt ne simp_thms if_True if_False) (rule sublist_appendI)
  then show "sublist ''?geoShapeUrl '' (build_query cfg)"
    unfolding build_query_parts by (rule sublist_app_left)
  have "sublist ''  ?item wdt:P3896 ?geoShapeUrl.\<newline>'' (query_tail cfg)"
    unfolding query_tail_def
    by (simp only: dt ne simp_thms if_True if_False) (intro sublist_app_right sublist_append_rightI)
  then show "sublist ''  ?item wdt:P3896 ?geoShapeUrl.\<newline>'' (build_query cfg)"
    unfolding build_query_parts by (intro sublist_app_right)
qed

text \<open>
  Claim C8, as amended.  For a configuration of type \<open>point\<close> the compiled query contains
  the coordinate output column and the coordinate triple; and it contains neither the
  shape variable \<open>?geoShapeUrl\<close> nor the shape triple, provided that no identifier string
  of the configuration contains \<open>?geoShapeUrl\<close> itself.  For type \<open>polygon\<close> the same
  holds with the two clauses exchanged.
\<close>

theorem geometry_clause_by_dataset_type:
  "(dataset_type cfg = ''point'' \<longrightarrow>
      sublist ''?coord '' (build_query cfg)
      \<and> sublist ''  ?item wdt:P625 ?coord.\<newline>'' (build_query cfg)
      \<and> (identifiers_free ''?geoShapeUrl'' cfg \<longrightarrow>
           \<not> sublist ''?geoShapeUrl'' (build_query cfg)
           \<and> \<not> sublist ''  ?item wdt:P3896 ?geoShapeUrl.\<newline>'' (build_query cfg)))
   \<and> (dataset_type cfg = ''polygon'' \<longrightarrow>
      sublist ''?geoShapeUrl '' (build_query cfg)
      \<and> sublist ''  ?item wdt:P3896 ?geoShapeUrl.\<newline>'' (build_query cfg)
      \<and> (identifiers_free ''?coord'' cfg \<longrightarrow>
           \<not> sublist ''?coord'' (build_query cfg)
           \<and> \<not> sublist ''  ?item wdt:P625 ?coord.\<newline>'' (build_query cfg)))"
proof (intro conjI impI)
  assume dt: "dataset_type cfg = ''point''"
  show "sublist ''?coord '' (build_query cfg)"
    "sublist ''  ?item wdt:P625 ?coord.\<newline>'' (build_query cfg)"
    using dt by (rule point_clauses_present)+
  assume f: "identifiers_free ''?geoShapeUrl'' cfg"
  show a: "\<not> sublist ''?geoShapeUrl'' (build_query cfg)"
  proof (rule build_query_free)
    show "''?geoShapeUrl'' = ''?geoShapeUrl'' \<or> ''?geoShapeUrl'' = ''?coord''" by simp
    show "\<not> sublist ''?geoShapeUrl'' (query_head cfg)"
      using dt f by (intro head_free_point) (simp_all add: identifiers_free_def)
    show "good ''?geoShapeUrl'' (query_tail cfg)" using dt by (rule tail_good_point)
    show "list_all (\<lambda>c. \<not> sublist ''?geoShapeUrl'' (property c)
        \<and> \<not> sublist ''?geoShapeUrl'' (value_c c)) (constraints cfg)"
      using f by (simp add: identifiers_free_def)
  qed
  have "sublist ''?geoShapeUrl'' ''  ?item wdt:P3896 ?geoShapeUrl.\<newline>''" by code_simp
  then show "\<not> sublist ''  ?item wdt:P3896 ?geoShapeUrl.\<newline>'' (build_query cfg)"
    using a by (rule not_sublist_mono)
next
  assume dt: "dataset_type cfg = ''polygon''"
  show "sublist ''?geoShapeUrl '' (build_query cfg)"
    "sublist ''  ?item wdt:P3896 ?geoShapeUrl.\<newline>'' (build_query cfg)"
    using dt by (rule polygon_clauses_present)+
  assume f: "identifiers_free ''?coord'' cfg"
  show a: "\<not> sublist ''?coord'' (build_query cfg)"
  proof (rule build_query_free)
    show "''?coord'' = ''?geoShapeUrl'' \<or> ''?coord'' = ''?coord''" by simp
    show "\<not> sublist ''?coord'' (query_head cfg)"
      using dt f by (intro head_free_polygon) (simp_all add: identifiers_free_def)
    show "good ''?coord'' (query_tail cfg)" using dt by (rule tail_good_polygon)
    show "list_all (\<lambda>c. \<not> sublist ''?coord'' (property c)
        \<and> \<not> sublist ''?coord'' (value_c c)) (constraints cfg)"
      using f by (simp add: identifiers_free_def)
  qed
  have "sublist ''?coord'' ''  ?item wdt:P625 ?coord.\<newline>''" by code_simp
  then show "\<not> sublist ''  ?item wdt:P625 ?coord.\<newline>'' (build_query cfg)"
    using a by (rule not_sublist_mono)
qed

text \<open>
  The claim as first stated fails: identifier strings are copied into the query verbatim,
  so an item type that carries the shape triple puts it into a \<open>point\<close> query.
\<close>

theorem injected_shape_clause_counterexample:
  "dataset_type injected_config = ''point''
   \<and> sublist ''?geoShapeUrl'' (build_query injected_config)
   \<and> sublist ''  ?item wdt:P3896 ?geoShapeUrl.\<newline>'' (build_query injected_config)"
  by code_simp

theorem geometry_clause_witness:
  "dataset_type cities_config = ''point''
   \<and> identifiers_free ''?geoShapeUrl'' cities_config
   \<and> sublist ''?coord '' (build_query cities_config)
   \<and> sublist ''  ?item wdt:P625 ?coord.\<newline>'' (build_query cities_config)
   \<and> \<not> sublist ''?geoShapeUrl'' (build_query cities_config)
   \<and> \<not> sublist ''  ?item wdt:P3896 ?geoShapeUrl.\<newline>'' (build_query cities_config)"
proof -
  have dt: "dataset_type cities_config = ''point''" by code_simp
  have f: "identifiers_free ''?geoShapeUrl'' cities_config" by code_simp
  show ?thesis using geometry_clause_by_dataset_type[of cities_config] dt f by blast
qed

section \<open>Properties of the result normalizer\<close>

lemma str_replace_absent:
  "c \<notin> set s \<Longrightarrow> str_replace (c # cs) new s = s"
proof (induction s)
  case Nil
  then show ?case by simp
next
  case (Cons x xs)
  then have "x \<noteq> c" and ih: "str_replace (c # cs) new xs = xs" by auto
  then show ?case by simp
qed

lemma str_replace_prefix:
  assumes "old \<noteq> []"
  shows "str_replace old new (old @ s) = new @ str_replace old new s"
proof -
  from assms obtain c cs where o: "old = c # cs" by (cases old) auto
  have "str_replace old new ((c # cs) @ s) = new @ str_replace old new s"
    using assms by (simp add: o)
  then show ?thesis by (simp add: o)
qed

lemma str_replace_char: "str_replace [c] [] s = filter (\<lambda>x. x \<noteq> c) s"
  by (induction s) auto

lemma split_ws_token:
  "list_all (\<lambda>c. \<not> is_space c) s \<Longrightarrow> split_ws cur (s @ rest) = split_ws (cur @ s) rest"
  by (induction s arbitrary: cur) auto

lemma number_chars:
  "list_all (\<lambda>c. \<not> is_space c \<and> c \<noteq> CHR ''P'' \<and> c \<noteq> CHR '')'') ''0123456789.+-eE''"
  by code_simp

lemma number_token_chars:
  assumes "number_token s"
  shows "list_all (\<lambda>c. \<not> is_space c) s" "CHR ''P'' \<notin> set s" "CHR '')'' \<notin> set s" "s \<noteq> []"
proof -
  from assms have s: "\<forall>c\<in>set s. c \<in> set ''0123456789.+-eE''" and "s \<noteq> []"
    by (simp_all add: number_token_def list_all_iff)
  from number_chars
  have n: "\<forall>c\<in>set ''0123456789.+-eE''. \<not> is_space c \<and> c \<noteq> CHR ''P'' \<and> c \<noteq> CHR '')''"
    unfolding list_all_iff .
  from s n have a: "\<forall>c\<in>set s. \<not> is_space c \<and> c \<noteq> CHR ''P'' \<and> c \<noteq> CHR '')''" by blast
  then show "list_all (\<lambda>c. \<not> is_space c) s" unfolding list_all_iff by blast
  from a show "CHR ''P'' \<notin> set s" by blast
  from a show "CHR '')'' \<notin> set s" by blast
  show "s \<noteq> []" by fact
qed

lemma parse_point_wkt:
  assumes a: "number_token a" and b: "number_token b"
    and fa: "pyfloat a = Some x" and fb: "pyfloat b = Some y"
  shows "parse_point pyfloat (''Point('' @ a @ '' '' @ b @ '')'') = Inr (x, y)"
proof -
  note ca = number_token_chars[OF a] and cb = number_token_chars[OF b]
  have P: "CHR ''P'' \<notin> set (a @ '' '' @ b @ '')'')" using ca(2) cb(2) by simp
  have 1: "str_replace ''Point('' [] (''Point('' @ a @ '' '' @ b @ '')'') = a @ '' '' @ b @ '')''"
    using str_replace_prefix[of "''Point(''" "[]" "a @ '' '' @ b @ '')''"]
      str_replace_absent[OF P, of "''oint(''" "[]"] by simp
  have 2: "str_replace '')'' [] (a @ '' '' @ b @ '')'') = a @ '' '' @ b"
  proof -
    have "filter (\<lambda>x. x \<noteq> CHR '')'') a = a" "filter (\<lambda>x. x \<noteq> CHR '')'') b = b"
      using ca(3) cb(3) by (auto simp: filter_id_conv)
    then show ?thesis by (simp add: str_replace_char)
  qed
  have 3: "str_split (a @ '' '' @ b) = [a, b]"
  proof -
    have "split_ws [] (a @ '' '' @ b) = split_ws a ('' '' @ b)"
      using split_ws_token[OF ca(1), of "[]"] by simp
    also have "\<dots> = a # split_ws [] (b @ [])" using ca(4) by (simp add: is_space_def)
    also have "split_ws [] (b @ []) = split_ws b []"
      using split_ws_token[OF cb(1), of "[]" "[]"] by simp
    also have "\<dots> = [b]" using cb(4) by simp
    finally show ?thesis by (simp add: str_split_def)
  qed
  show ?thesis
    unfolding parse_point_def 1 2 Let_def 3 by (simp add: fa fb)
qed

lemma parse_loop_acc:
  "parse_loop pyfloat dtype results rows
     = results @ concat (map (\<lambda>row. case parse_row pyfloat row dtype of
                                       Inl e \<Rightarrow> [] | Inr entry \<Rightarrow> [entry]) rows)"
  by (induction rows arbitrary: results) (auto split: sum.splits)

lemma parse_loop_append:
  "parse_loop pyfloat dtype [] (xs @ ys)
     = parse_loop pyfloat dtype [] xs @ parse_loop pyfloat dtype [] ys"
  by (simp add: parse_loop_acc[of _ _ "[]"])

lemma field_binding_value:
  "field row var = Some s \<Longrightarrow> binding_value row var = Inr (JStr s)"
  by (auto simp: field_def binding_value_def split: json.splits option.splits)







text \<open>
  Claim C6.  A row of a \<open>point\<close> query whose coordinate is the WKT literal
  \<open>Point(lon lat)\<close> becomes a record whose \<open>lng\<close> is the float of the first number and
  whose \<open>lat\<close> is the float of the second; the records of the rows before and after it
  surround it.
\<close>

theorem wkt_point_order:
  assumes "py_getitem data ''results'' = Inr r"
    and "py_getitem r ''bindings'' = Inr (JArr (before @ row # after))"
    and "field row ''itemLabel'' = Some label" and "field row ''item'' = Some uri"
    and "field row ''coord'' = Some (''Point('' @ lon_s @ '' '' @ lat_s @ '')'')"
    and "number_token lon_s" and "number_token lat_s"
    and "pyfloat lon_s = Some lon" and "pyfloat lat_s = Some lat"
  shows "parse_results pyfloat data ''point''
           = Inr (parse_loop pyfloat ''point'' [] before
                  @ JObj [(''label'', JStr label),
                          (''id'', JStr (last (str_split_sep uri CHR ''/''))),
                          (''lat'', JFloat lat), (''lng'', JFloat lon)]
                  # parse_loop pyfloat ''point'' [] after)"
proof -
  have "parse_row pyfloat row ''point''
      = Inr (JObj [(''label'', JStr label), (''id'', JStr (last (str_split_sep uri CHR ''/''))),
                   (''lat'', JFloat lat), (''lng'', JFloat lon)])"
    using assms(3-5) parse_point_wkt[OF assms(6-9)]
    by (simp add: parse_row_def field_binding_value)
  then have "parse_loop pyfloat ''point'' [] (row # after)
      = JObj [(''label'', JStr label), (''id'', JStr (last (str_split_sep uri CHR ''/''))),
              (''lat'', JFloat lat), (''lng'', JFloat lon)]
        # parse_loop pyfloat ''point'' [] after"
    by (simp add: parse_loop_acc[of _ _ "[_]"] parse_loop_acc[of _ _ "[]"])
  then show ?thesis
    using assms(1,2) by (simp add: parse_results_def parse_loop_append)
qed

theorem wkt_point_order_witness:
  "number_token ''2.3522'' \<and> number_token ''48.8566''
   \<and> field paris_row ''coord'' = Some (''Point('' @ ''2.3522'' @ '' '' @ ''48.8566'' @ '')'')
   \<and> float_stub ''2.3522'' = Some (23522 / 10000) \<and> float_stub ''48.8566'' = Some (488566 / 10000)
   \<and> parse_results float_stub (query_result [paris_row]) ''point''
       = Inr [JObj [(''label'', JStr ''Paris''), (''id'', JStr ''Q90''),
                    (''lat'', JFloat (488566 / 10000)), (''lng'', JFloat (23522 / 10000))]]"
proof -
  have 1: "py_getitem (query_result [paris_row]) ''results''
       = Inr (JObj [(''bindings'', JArr ([] @ paris_row # []))])"
    by (simp add: query_result_def)
  have 2: "py_getitem (JObj [(''bindings'', JArr ([] @ paris_row # []))]) ''bindings''
       = Inr (JArr ([] @ paris_row # []))"
    by simp
  have 3: "field paris_row ''itemLabel'' = Some ''Paris''" by code_simp
  have 4: "field paris_row ''item'' = Some ''http://www.wikidata.org/entity/Q90''" by code_simp
  have 5: "field paris_row ''coord'' = Some (''Point('' @ ''2.3522'' @ '' '' @ ''48.8566'' @ '')'')"
    by code_simp
  have 6: "number_token ''2.3522''" and 7: "number_token ''48.8566''" by code_simp+
  have 8: "float_stub ''2.3522'' = Some (23522 / 10000)"
    and 9: "float_stub ''48.8566'' = Some (488566 / 10000)" by code_simp+
  have 10: "last (str_split_sep ''http://www.wikidata.org/entity/Q90'' CHR ''/'') = ''Q90''"
    by code_simp
  from wkt_point_order[OF 1 2 3 4 5 6 7 8 9] 10
  have "parse_results float_stub (query_result [paris_row]) ''point''
       = Inr [JObj [(''label'', JStr ''Paris''), (''id'', JStr ''Q90''),
                    (''lat'', JFloat (488566 / 10000)), (''lng'', JFloat (23522 / 10000))]]"
    by simp
  with 5 6 7 8 9 show ?thesis by simp
qed

section \<open>Properties of the dataset store\<close>

lemma getitem_truthy: "py_getitem j key = Inr v \<Longrightarrow> truthy j"
  by (cases j) (auto split: option.splits)

lemma parse_results_truthy: "parse_results pyfloat raw dtype = Inr parsed \<Longrightarrow> truthy raw"
  by (auto simp: parse_results_def split: sum.splits dest: getitem_truthy)

lemma api_save_fetched:
  assumes "endpoint (build_query (req_config req)) = Some raw"
    and "parse_results pyfloat raw (dataset_type (req_config req)) = Inr parsed"
    and "parsed \<noteq> []"
  shows "api_save pyfloat endpoint t_id t_file fs req =
     (case id_and_filename t_id t_file (load_datasets fs) req of
        Inl err \<Rightarrow> (Inl err, fs)
      | Inr (dataset_id, filename) \<Rightarrow>
          (case filename of
             JStr filename_s \<Rightarrow>
               (case (if given_id req \<noteq> None
                      then replace_in (load_datasets fs) dataset_id (new_entry req dataset_id filename)
                      else append_to (load_datasets fs) (new_entry req dataset_id filename)) of
                  Inl e \<Rightarrow> (Inl (Unhandled e),
                            fs(path_join ''static'' filename_s \<mapsto> Json_text (JArr parsed)))
                | Inr datasets \<Rightarrow>
                    (Inr (JObj [(''message'', JStr ''Dataset saved successfully''),
                                (''id'', JStr dataset_id)]),
                     fs(path_join ''static'' filename_s \<mapsto> Json_text (JArr parsed),
                        ''datasets.json'' \<mapsto> Json_text datasets)))
           | _ \<Rightarrow> (Inl (Unhandled TypeError), fs)))"
  using assms parse_results_truthy[OF assms(2)]
  unfolding api_save_def fetch_sparql_def Let_def
  by (simp split: sum.splits prod.splits json.splits)

text \<open>
  Claim C1.  When the fetched query result normalizes to no record at all, \<open>api_save\<close>
  fails with \<open>HTTPException 400\<close> and returns the file system it was given: no
  metadata entry is added or replaced and no data file is written or overwritten.
\<close>

theorem save_empty_result_rejected:
  assumes "endpoint (build_query (req_config req)) = Some raw"
    and "parse_results pyfloat raw (dataset_type (req_config req)) = Inr []"
  shows "api_save pyfloat endpoint t_id t_file fs req
           = (Inl (HTTPException 400 ''No items found to save''), fs)"
  using assms parse_results_truthy[OF assms(2)]
  unfolding api_save_def fetch_sparql_def Let_def by simp

lemma api_save_create:
  assumes "given_id req = None"
    and "endpoint (build_query (req_config req)) = Some raw"
    and "parse_results pyfloat raw (dataset_type (req_config req)) = Inr parsed"
    and "parsed \<noteq> []"
    and "load_datasets fs = JArr ds"
  shows "api_save pyfloat endpoint t_id t_file fs req =
     (Inr (JObj [(''message'', JStr ''Dataset saved successfully''),
                 (''id'', JStr (''custom_'' @ str_int t_id))]),
      fs(path_join ''static'' (''dataset_'' @ str_int t_file @ ''.json'') \<mapsto> Json_text (JArr parsed),
         ''datasets.json'' \<mapsto>
           Json_text (JArr (ds @ [new_entry req (''custom_'' @ str_int t_id)
                                    (JStr (''dataset_'' @ str_int t_file @ ''.json''))]))))"
  unfolding api_save_fetched[where endpoint = endpoint and req = req, OF assms(2-4)]
  by (simp add: id_and_filename_def assms(1,5) append_to_def)

lemma find_entry_first:
  assumes "list_all (other_id dataset_id) before" and "py_getitem old ''id'' = Inr (JStr dataset_id)"
  shows "find_entry (before @ old # after) dataset_id = Inr (Some old)"
  using assms by (induction before) (auto simp: other_id_def split: sum.splits)

lemma replace_entry_first:
  assumes "list_all (other_id dataset_id) before" and "py_getitem old ''id'' = Inr (JStr dataset_id)"
  shows "replace_entry (before @ old # after) dataset_id new = Inr (before @ new # after)"
  using assms by (induction before) (auto simp: other_id_def split: sum.splits)

lemma find_entry_none:
  "list_all (other_id dataset_id) ds \<Longrightarrow> find_entry ds dataset_id = Inr None"
  by (induction ds) (auto simp: other_id_def split: sum.splits)

lemma static_not_store: "path_join ''static'' f \<noteq> ''datasets.json''"
proof (cases "startswith f ''/''")
  case True
  then obtain r where "f = CHR ''/'' # r" by (cases f) (simp_all add: startswith_def)
  with True show ?thesis by (simp add: path_join_def)
next
  case False
  then show ?thesis by (simp add: path_join_def)
qed



lemma str_int_now: "str_int 1700000000 = ''1700000000''"
  by (simp add: str_int_def str_nat.simps digit_char_def)

theorem save_empty_result_witness:
  "no_coordinates (build_query (req_config save_cities)) = Some (query_result [nowhere_row])
   \<and> parse_results float_stub (query_result [nowhere_row]) (dataset_type (req_config save_cities))
       = Inr []
   \<and> api_save float_stub no_coordinates 1700000000 1700000000
        [''datasets.json'' \<mapsto> Json_text (JArr [])] save_cities
       = (Inl (HTTPException 400 ''No items found to save''),
          [''datasets.json'' \<mapsto> Json_text (JArr [])])"
proof -
  have 1: "no_coordinates (build_query (req_config save_cities)) = Some (query_result [nowhere_row])"
    by (simp add: no_coordinates_def)
  have 2: "parse_results float_stub (query_result [nowhere_row])
             (dataset_type (req_config save_cities)) = Inr []"
    by code_simp
  from save_empty_result_rejected[where endpoint = no_coordinates, OF 1 2] 1 2
  show ?thesis by blast
qed

lemma plain_name_path: "plain_name f \<Longrightarrow> path_join ''static'' f = ''static/'' @ f"
  by (cases f) (simp_all add: plain_name_def path_join_def startswith_def)

text \<open>
  Claim C2.  A save that carries the id of an entry of the store (the first entry with
  that id, the ones before it carrying other ids), where the entry names an existing data
  file of the directory \<open>static\<close> by a plain file name, succeeds, overwrites that file
  with the fetched records, and puts the new metadata entry at the position of the old
  one: the entries before and after it stay, the new entry has the same id and the same
  file name, and the store has as many entries as before.
\<close>

theorem save_existing_replaces_in_place:
  assumes "req_id req = Some dataset_id" and "dataset_id \<noteq> []"
    and "endpoint (build_query (req_config req)) = Some raw"
    and "parse_results pyfloat raw (dataset_type (req_config req)) = Inr parsed"
    and "parsed \<noteq> []"
    and "fs ''datasets.json'' = Some (Json_text (JArr (before @ old # after)))"
    and "list_all (other_id dataset_id) before"
    and "py_getitem old ''id'' = Inr (JStr dataset_id)"
    and "py_getitem old ''filename'' = Inr (JStr filename)"
    and "plain_name filename"
    and "fs (''static/'' @ filename) = Some old_data"
  shows "api_save pyfloat endpoint t_id t_file fs req
           = (Inr (JObj [(''message'', JStr ''Dataset saved successfully''),
                         (''id'', JStr dataset_id)]),
              fs(path_join ''static'' filename \<mapsto> Json_text (JArr parsed),
                 ''datasets.json'' \<mapsto>
                   Json_text (JArr (before @ new_entry req dataset_id (JStr filename) # after))))
         \<and> py_getitem (new_entry req dataset_id (JStr filename)) ''id'' = Inr (JStr dataset_id)
         \<and> py_getitem (new_entry req dataset_id (JStr filename)) ''filename'' = Inr (JStr filename)
         \<and> length (before @ new_entry req dataset_id (JStr filename) # after)
             = length (before @ old # after)
         \<and> path_join ''static'' filename = ''static/'' @ filename"
proof -
  have g: "given_id req = Some dataset_id" using assms(1,2) by (simp add: given_id_def)
  have l: "load_datasets fs = JArr (before @ old # after)"
    using assms(6) by (simp add: load_datasets_def)
  have t: "truthy old" using assms(8) by (rule getitem_truthy)
  have i: "id_and_filename t_id t_file (load_datasets fs) req = Inr (dataset_id, JStr filename)"
    using t assms(9) by (simp add: id_and_filename_def g l find_entry_first[OF assms(7,8)])
  have r: "replace_in (load_datasets fs) dataset_id (new_entry req dataset_id (JStr filename))
      = Inr (JArr (before @ new_entry req dataset_id (JStr filename) # after))"
    by (simp add: replace_in_def l replace_entry_first[OF assms(7,8)])
  have "api_save pyfloat endpoint t_id t_file fs req
           = (Inr (JObj [(''message'', JStr ''Dataset saved successfully''),
                         (''id'', JStr dataset_id)]),
              fs(path_join ''static'' filename \<mapsto> Json_text (JArr parsed),
                 ''datasets.json'' \<mapsto>
                   Json_text (JArr (before @ new_entry req dataset_id (JStr filename) # after))))"
    unfolding api_save_fetched[where endpoint = endpoint and req = req, OF assms(3-5)]
    by (simp add: i r g)
  then show ?thesis using plain_name_path[OF assms(10)] by (simp add: new_entry_def)
qed

text \<open>
  Claim C4.  A delete request whose id no entry of the store carries, the store document
  being absent or a list of entries with other ids, fails with \<open>HTTPException 404\<close> and
  returns the file system unchanged: the store document and every data file stay.
\<close>

theorem delete_unknown_id_not_found:
  assumes "fs ''datasets.json'' = None
           \<or> (\<exists>ds. fs ''datasets.json'' = Some (Json_text (JArr ds))
                  \<and> list_all (other_id (del_id req)) ds)"
  shows "\<exists>detail. api_delete remove_ok fs req = (Inl (HTTPException 404 detail), fs)"
  using assms by (auto simp: api_delete_def find_entry_none)

text \<open>
  Claim C5.  When the store document holds bytes that are not JSON, a save answers as it
  would with no store document at all: the decoding error is never reported.  A save
  without an id then succeeds and rewrites the document as the list of the one new entry,
  whatever the document held before.
\<close>

theorem save_over_invalid_store:
  assumes "fs ''datasets.json'' = Some (Other_bytes junk)"
    and "endpoint (build_query (req_config req)) = Some raw"
    and "parse_results pyfloat raw (dataset_type (req_config req)) = Inr parsed"
    and "parsed \<noteq> []"
  shows "fst (api_save pyfloat endpoint t_id t_file fs req)
           = fst (api_save pyfloat endpoint t_id t_file (fs(''datasets.json'' := None)) req)
         \<and> (given_id req = None \<longrightarrow>
              api_save pyfloat endpoint t_id t_file fs req
                = (Inr (JObj [(''message'', JStr ''Dataset saved successfully''),
                              (''id'', JStr (''custom_'' @ str_int t_id))]),
                   fs(path_join ''static'' (''dataset_'' @ str_int t_file @ ''.json'')
                        \<mapsto> Json_text (JArr parsed),
                      ''datasets.json'' \<mapsto>
                        Json_text (JArr [new_entry req (''custom_'' @ str_int t_id)
                                           (JStr (''dataset_'' @ str_int t_file @ ''.json''))]))))"
proof -
  have l: "load_datasets fs = JArr []" using assms(1) by (simp add: load_datasets_def)
  have l': "load_datasets (fs(''datasets.json'' := None)) = JArr []"
    by (simp add: load_datasets_def)
  have a: "fst (api_save pyfloat endpoint t_id t_file fs req)
           = fst (api_save pyfloat endpoint t_id t_file (fs(''datasets.json'' := None)) req)"
    unfolding api_save_fetched[where endpoint = endpoint and req = req, OF assms(2-4)] l l'
    by (simp split: sum.splits prod.splits json.splits)
  have b: "given_id req = None \<longrightarrow>
              api_save pyfloat endpoint t_id t_file fs req
                = (Inr (JObj [(''message'', JStr ''Dataset saved successfully''),
                              (''id'', JStr (''custom_'' @ str_int t_id))]),
                   fs(path_join ''static'' (''dataset_'' @ str_int t_file @ ''.json'')
                        \<mapsto> Json_text (JArr parsed),
                      ''datasets.json'' \<mapsto>
                        Json_text (JArr [new_entry req (''custom_'' @ str_int t_id)
                                           (JStr (''dataset_'' @ str_int t_file @ ''.json''))])))"
    using api_save_create[where endpoint = endpoint and req = req and ds = "[]", OF _ assms(2-4) l]
    by simp
  from a b show ?thesis by simp
qed

lemma two_cities_fetched:
  "two_cities q = Some (query_result [paris_row, berlin_row])"
  by (simp add: two_cities_def)

lemma two_cities_parsed:
  "parse_results float_stub (query_result [paris_row, berlin_row]) ''point''
     = Inr [JObj [(''label'', JStr ''Paris''), (''id'', JStr ''Q90''),
                  (''lat'', JFloat (488566 / 10000)), (''lng'', JFloat (23522 / 10000))],
            JObj [(''label'', JStr ''Berlin''), (''id'', JStr ''Q64''),
                  (''lat'', JFloat (5252 / 100)), (''lng'', JFloat (13405 / 1000))]]"
  by code_simp

lemma example_types:
  "dataset_type (req_config save_cities) = ''point''"
  "dataset_type (req_config save_capitals) = ''point''"
  "dataset_type (req_config update_capitals) = ''point''"
  by (simp_all add: save_cities_def save_capitals_def update_capitals_def cities_config_def)

theorem save_existing_witness:
  "req_id update_capitals = Some ''custom_1700000100''
   \<and> list_all (other_id ''custom_1700000100'') [two_datasets ! 0]
   \<and> py_getitem (two_datasets ! 1) ''id'' = Inr (JStr ''custom_1700000100'')
   \<and> py_getitem (two_datasets ! 1) ''filename'' = Inr (JStr ''dataset_1700000100.json'')
   \<and> plain_name ''dataset_1700000100.json''
   \<and> new_entry update_capitals ''custom_1700000100'' (JStr ''dataset_1700000100.json'')
       \<noteq> (two_datasets ! 1 :: rat json)
   \<and> api_save float_stub two_cities 1700000200 1700000200
        [''datasets.json'' \<mapsto> Json_text (JArr two_datasets),
         ''static/dataset_1700000100.json'' \<mapsto> Json_text (JArr [])] update_capitals
       = (Inr (JObj [(''message'', JStr ''Dataset saved successfully''),
                     (''id'', JStr ''custom_1700000100'')]),
          [''datasets.json'' \<mapsto> Json_text (JArr two_datasets),
           ''static/dataset_1700000100.json'' \<mapsto> Json_text (JArr []),
           ''static/dataset_1700000100.json'' \<mapsto>
              Json_text (JArr [JObj [(''label'', JStr ''Paris''), (''id'', JStr ''Q90''),
                  (''lat'', JFloat (488566 / 10000)), (''lng'', JFloat (23522 / 10000))],
            JObj [(''label'', JStr ''Berlin''), (''id'', JStr ''Q64''),
                  (''lat'', JFloat (5252 / 100)), (''lng'', JFloat (13405 / 1000))]]),
           ''datasets.json'' \<mapsto>
              Json_text (JArr [two_datasets ! 0,
                 new_entry update_capitals ''custom_1700000100'' (JStr ''dataset_1700000100.json'')])])"
proof -
  let ?parsed = "[JObj [(''label'', JStr ''Paris''), (''id'', JStr ''Q90''),
                  (''lat'', JFloat (488566 / 10000)), (''lng'', JFloat (23522 / 10000))],
            JObj [(''label'', JStr ''Berlin''), (''id'', JStr ''Q64''),
                  (''lat'', JFloat (5252 / 100)), (''lng'', JFloat (13405 / 1000 :: rat))]]"
  let ?fs = "[''datasets.json'' \<mapsto> Json_text (JArr two_datasets),
              ''static/dataset_1700000100.json'' \<mapsto> Json_text (JArr [])] :: rat fs"
  have td: "two_datasets = [two_datasets ! 0] @ (two_datasets ! 1) # []"
    by (simp add: two_datasets_def)
  have 1: "req_id update_capitals = Some ''custom_1700000100''"
    by (simp add: update_capitals_def)
  have 2: "''custom_1700000100'' \<noteq> []" by simp
  have 3: "two_cities (build_query (req_config update_capitals))
             = Some (query_result [paris_row, berlin_row])"
    by (rule two_cities_fetched)
  have 4: "parse_results float_stub (query_result [paris_row, berlin_row])
             (dataset_type (req_config update_capitals)) = Inr ?parsed"
    unfolding example_types by (rule two_cities_parsed)
  have 5: "?parsed \<noteq> []" by simp
  have 6: "?fs ''datasets.json''
             = Some (Json_text (JArr ([two_datasets ! 0] @ (two_datasets ! 1) # [])))"
    using td by simp
  have 7: "list_all (other_id ''custom_1700000100'') [two_datasets ! 0]"
    by (simp add: two_datasets_def other_id_def new_entry_def)
  have 8: "py_getitem (two_datasets ! 1) ''id'' = Inr (JStr ''custom_1700000100'')"
    by (simp add: two_datasets_def new_entry_def)
  have 9: "py_getitem (two_datasets ! 1) ''filename'' = Inr (JStr ''dataset_1700000100.json'')"
    by (simp add: two_datasets_def new_entry_def)
  have 10: "plain_name ''dataset_1700000100.json''" by code_simp
  have 11: "?fs (''static/'' @ ''dataset_1700000100.json'') = Some (Json_text (JArr []))"
    by simp
  have n: "new_entry update_capitals ''custom_1700000100'' (JStr ''dataset_1700000100.json'')
       \<noteq> (two_datasets ! 1 :: rat json)"
    by (simp add: two_datasets_def new_entry_def update_capitals_def save_capitals_def)
  have p: "path_join ''static'' ''dataset_1700000100.json'' = ''static/dataset_1700000100.json''"
    by (simp add: path_join_def startswith_def)
  from save_existing_replaces_in_place[where endpoint = two_cities and req = update_capitals
      and fs = ?fs and t_id = 1700000200 and t_file = 1700000200, OF 1 2 3 4 5 6 7 8 9 10 11]
  have "api_save float_stub two_cities 1700000200 1700000200 ?fs update_capitals
       = (Inr (JObj [(''message'', JStr ''Dataset saved successfully''),
                     (''id'', JStr ''custom_1700000100'')]),
          ?fs(''static/dataset_1700000100.json'' \<mapsto> Json_text (JArr ?parsed),
              ''datasets.json'' \<mapsto>
                Json_text (JArr [two_datasets ! 0,
                  new_entry update_capitals ''custom_1700000100''
                    (JStr ''dataset_1700000100.json'')])))"
    unfolding p append.simps by (elim conjE) assumption
  with 1 7 8 9 10 n show ?thesis by blast
qed

theorem delete_unknown_id_witness:
  "list_all (other_id (del_id \<lparr>del_id = ''custom_42''\<rparr>)) two_datasets
   \<and> (\<exists>detail. api_delete True [''datasets.json'' \<mapsto> Json_text (JArr two_datasets)]
                   \<lparr>del_id = ''custom_42''\<rparr>
                 = (Inl (HTTPException 404 detail),
                    [''datasets.json'' \<mapsto> Json_text (JArr two_datasets)]))
   \<and> (\<exists>detail. api_delete True (Map.empty :: rat fs) \<lparr>del_id = ''custom_42''\<rparr>
                 = (Inl (HTTPException 404 detail), Map.empty))"
proof -
  have 1: "list_all (other_id (del_id \<lparr>del_id = ''custom_42''\<rparr>)) two_datasets"
    by (simp add: two_datasets_def other_id_def new_entry_def)
  have 2: "[''datasets.json'' \<mapsto> Json_text (JArr two_datasets)] ''datasets.json'' = None
           \<or> (\<exists>ds. [''datasets.json'' \<mapsto> Json_text (JArr two_datasets)] ''datasets.json''
                       = Some (Json_text (JArr ds))
                  \<and> list_all (other_id (del_id \<lparr>del_id = ''custom_42''\<rparr>)) ds)"
    using 1 by simp
  have 3: "(Map.empty :: rat fs) ''datasets.json'' = None
           \<or> (\<exists>ds. (Map.empty :: rat fs) ''datasets.json'' = Some (Json_text (JArr ds))
                  \<and> list_all (other_id (del_id \<lparr>del_id = ''custom_42''\<rparr>)) ds)"
    by simp
  from delete_unknown_id_not_found[
      where fs = "[''datasets.json'' \<mapsto> Json_text (JArr two_datasets)]"
        and remove_ok = True, OF 2]
    delete_unknown_id_not_found[where fs = "Map.empty :: rat fs" and remove_ok = True, OF 3] 1
  show ?thesis by blast
qed

theorem save_over_invalid_store_witness:
  "given_id save_cities = None
   \<and> api_save float_stub two_cities 1700000000 1700000000
        [''datasets.json'' \<mapsto> Other_bytes ''[{'', ''static/old.json'' \<mapsto> Json_text (JArr [])]
        save_cities
       = (Inr (JObj [(''message'', JStr ''Dataset saved successfully''),
                     (''id'', JStr ''custom_1700000000'')]),
          [''datasets.json'' \<mapsto> Other_bytes ''[{'', ''static/old.json'' \<mapsto> Json_text (JArr []),
           ''static/dataset_1700000000.json'' \<mapsto>
              Json_text (JArr [JObj [(''label'', JStr ''Paris''), (''id'', JStr ''Q90''),
                  (''lat'', JFloat (488566 / 10000)), (''lng'', JFloat (23522 / 10000))],
            JObj [(''label'', JStr ''Berlin''), (''id'', JStr ''Q64''),
                  (''lat'', JFloat (5252 / 100)), (''lng'', JFloat (13405 / 1000))]]),
           ''datasets.json'' \<mapsto>
              Json_text (JArr [new_entry save_cities ''custom_1700000000''
                                 (JStr ''dataset_1700000000.json'')])])"
proof -
  let ?parsed = "[JObj [(''label'', JStr ''Paris''), (''id'', JStr ''Q90''),
                  (''lat'', JFloat (488566 / 10000)), (''lng'', JFloat (23522 / 10000))],
            JObj [(''label'', JStr ''Berlin''), (''id'', JStr ''Q64''),
                  (''lat'', JFloat (5252 / 100)), (''lng'', JFloat (13405 / 1000 :: rat))]]"
  let ?fs = "[''datasets.json'' \<mapsto> Other_bytes ''[{'', ''static/old.json'' \<mapsto> Json_text (JArr [])]
               :: rat fs"
  have 0: "given_id save_cities = None" by (simp add: given_id_def save_cities_def)
  have 1: "?fs ''datasets.json'' = Some (Other_bytes ''[{'')" by simp
  have 3: "two_cities (build_query (req_config save_cities))
             = Some (query_result [paris_row, berlin_row])"
    by (rule two_cities_fetched)
  have 4: "parse_results float_stub (query_result [paris_row, berlin_row])
             (dataset_type (req_config save_cities)) = Inr ?parsed"
    unfolding example_types by (rule two_cities_parsed)
  have 5: "?parsed \<noteq> []" by simp
  have p: "path_join ''static'' (''dataset_'' @ ''1700000000'' @ ''.json'')
             = ''static/dataset_1700000000.json''"
    by (simp add: path_join_def startswith_def)
  from save_over_invalid_store[where endpoint = two_cities and req = save_cities
      and fs = ?fs and t_id = 1700000000 and t_file = 1700000000, OF 1 3 4 5] 0
  have "api_save float_stub two_cities 1700000000 1700000000 ?fs save_cities
       = (Inr (JObj [(''message'', JStr ''Dataset saved successfully''),
                     (''id'', JStr (''custom_'' @ str_int 1700000000))]),
          ?fs(path_join ''static'' (''dataset_'' @ str_int 1700000000 @ ''.json'')
                \<mapsto> Json_text (JArr ?parsed),
              ''datasets.json'' \<mapsto>
                 Json_text (JArr [new_entry save_cities (''custom_'' @ str_int 1700000000)
                                    (JStr (''dataset_'' @ str_int 1700000000 @ ''.json''))])))"
    by blast
  then show ?thesis unfolding str_int_now p using 0 by simp
qed

lemma load_datasets_written:
  "load_datasets (fs(''datasets.json'' \<mapsto> Json_text j)) = j"
  by (simp add: load_datasets_def)

lemma load_datasets_beside:
  "load_datasets (fs(path_join ''static'' f \<mapsto> c)) = load_datasets fs"
  using static_not_store[of f] by (simp add: load_datasets_def)

lemma two_creates:
  assumes "given_id req1 = None" and "given_id req2 = None"
    and "endpoint1 (build_query (req_config req1)) = Some raw1"
    and "parse_results pyfloat raw1 (dataset_type (req_config req1)) = Inr parsed1"
    and "parsed1 \<noteq> []"
    and "endpoint2 (build_query (req_config req2)) = Some raw2"
    and "parse_results pyfloat raw2 (dataset_type (req_config req2)) = Inr parsed2"
    and "parsed2 \<noteq> []"
    and "fs ''datasets.json'' = None"
  shows "snd (api_save pyfloat endpoint1 t_id1 t_file1 fs req1) ''datasets.json''
           = Some (Json_text (JArr [new_entry req1 (''custom_'' @ str_int t_id1)
                                      (JStr (''dataset_'' @ str_int t_file1 @ ''.json''))]))"
    and "snd (api_save pyfloat endpoint2 t_id2 t_file2
                (snd (api_save pyfloat endpoint1 t_id1 t_file1 fs req1)) req2) ''datasets.json''
           = Some (Json_text (JArr [new_entry req1 (''custom_'' @ str_int t_id1)
                                      (JStr (''dataset_'' @ str_int t_file1 @ ''.json'')),
                                    new_entry req2 (''custom_'' @ str_int t_id2)
                                      (JStr (''dataset_'' @ str_int t_file2 @ ''.json''))]))"
proof -
  let ?e1 = "new_entry req1 (''custom_'' @ str_int t_id1)
               (JStr (''dataset_'' @ str_int t_file1 @ ''.json'')) :: 'a json"
  let ?fs1 = "fs(path_join ''static'' (''dataset_'' @ str_int t_file1 @ ''.json'')
                   \<mapsto> Json_text (JArr parsed1),
                 ''datasets.json'' \<mapsto> Json_text (JArr ([] @ [?e1])))"
  have l0: "load_datasets fs = JArr []" using assms(9) by (simp add: load_datasets_def)
  have s1: "snd (api_save pyfloat endpoint1 t_id1 t_file1 fs req1) = ?fs1"
    using api_save_create[where endpoint = endpoint1 and req = req1 and fs = fs,
        OF assms(1,3,4,5) l0, of t_id1 t_file1]
    by simp
  show "snd (api_save pyfloat endpoint1 t_id1 t_file1 fs req1) ''datasets.json''
           = Some (Json_text (JArr [?e1]))"
    unfolding s1 by simp
  have l1: "load_datasets ?fs1 = JArr [?e1]" by (simp add: load_datasets_written)
  show "snd (api_save pyfloat endpoint2 t_id2 t_file2
                (snd (api_save pyfloat endpoint1 t_id1 t_file1 fs req1)) req2) ''datasets.json''
           = Some (Json_text (JArr [?e1, new_entry req2 (''custom_'' @ str_int t_id2)
                                      (JStr (''dataset_'' @ str_int t_file2 @ ''.json''))]))"
    unfolding s1
    using api_save_create[where endpoint = endpoint2 and req = req2 and fs = ?fs1,
        OF assms(2,6,7,8) l1, of t_id2 t_file2]
    by simp
qed

text \<open>Distinct clock readings give distinct ids and file names: \<open>str\<close> is injective on
  integers.\<close>

lemma digit_val_char: "d < 10 \<Longrightarrow> digit_val (digit_char d) = d"
proof -
  assume "d < 10"
  then consider "d = 0" | "d = 1" | "d = 2" | "d = 3" | "d = 4" | "d = 5" | "d = 6" | "d = 7"
    | "d = 8" | "d = 9" by atomize_elim arith
  then show ?thesis by cases (simp_all add: digit_val_def digit_char_def)
qed

lemma digits_val_str_nat: "digits_val (str_nat n) = n"
proof (induction n rule: str_nat.induct)
  case (1 n)
  show ?case
  proof (cases "n < 10")
    case True
    then show ?thesis
      by (subst str_nat.simps) (simp add: digits_val_def digit_val_char)
  next
    case False
    with 1 have "digits_val (str_nat (n div 10)) = n div 10" by simp
    then have "digits_val (str_nat (n div 10) @ [digit_char (n mod 10)]) = 10 * (n div 10) + n mod 10"
      by (simp add: digits_val_def digit_val_char)
    with False show ?thesis by (subst str_nat.simps) simp
  qed
qed

lemma str_nat_inj: "str_nat m = str_nat n \<Longrightarrow> m = n"
  by (metis digits_val_str_nat)

lemma str_nat_no_minus: "CHR ''-'' # s \<noteq> str_nat n"
proof
  assume "CHR ''-'' # s = str_nat n"
  then have "CHR ''-'' \<in> set (str_nat n)" by (metis list.set_intros(1))
  with set_str_nat[of n] have "CHR ''-'' \<in> set ''0123456789''" by blast
  then show False by simp
qed

lemma str_int_inj: "str_int i = str_int j \<Longrightarrow> i = j"
proof -
  assume a: "str_int i = str_int j"
  show ?thesis
  proof (cases "i < 0"; cases "j < 0")
    assume "i < 0" "j < 0"
    with a have "nat (- i) = nat (- j)" by (auto simp: str_int_def dest: str_nat_inj)
    with \<open>i < 0\<close> \<open>j < 0\<close> show ?thesis by simp
  next
    assume "i < 0" "\<not> j < 0"
    with a show ?thesis using str_nat_no_minus by (simp add: str_int_def)
  next
    assume "\<not> i < 0" "j < 0"
    with a have "CHR ''-'' # str_nat (nat (- j)) = str_nat (nat i)" by (simp add: str_int_def)
    then show ?thesis using str_nat_no_minus by blast
  next
    assume "\<not> i < 0" "\<not> j < 0"
    with a have "nat i = nat j" by (auto simp: str_int_def dest: str_nat_inj)
    with \<open>\<not> i < 0\<close> \<open>\<not> j < 0\<close> show ?thesis by simp
  qed
qed

lemma minted_names_differ:
  "(''custom_'' @ str_int s = ''custom_'' @ str_int t) = (s = t)"
  "(''dataset_'' @ str_int s @ ''.json'' = ''dataset_'' @ str_int t @ ''.json'') = (s = t)"
  using str_int_inj by auto

lemma two_creates_ids:
  "(py_getitem (new_entry req1 (''custom_'' @ str_int t_id1)
                  (JStr (''dataset_'' @ str_int t_file1 @ ''.json''))) ''id''
      = py_getitem (new_entry req2 (''custom_'' @ str_int t_id2)
                      (JStr (''dataset_'' @ str_int t_file2 @ ''.json''))) ''id'')
     = (t_id1 = t_id2)"
  "(py_getitem (new_entry req1 (''custom_'' @ str_int t_id1)
                  (JStr (''dataset_'' @ str_int t_file1 @ ''.json''))) ''filename''
      = py_getitem (new_entry req2 (''custom_'' @ str_int t_id2)
                      (JStr (''dataset_'' @ str_int t_file2 @ ''.json''))) ''filename'')
     = (t_file1 = t_file2)"
  using minted_names_differ by (simp_all add: new_entry_def)

text \<open>
  Claim C3, at the input where the code departs from it.  The id and the file name are
  minted from the clock in whole seconds.  Two saves without an id whose clock readings
  fall into the same second leave a store of two entries that carry the same id and the
  same file name (and the second save has overwritten the data file of the first).
\<close>

theorem same_second_saves_share_id:
  "snd (api_save float_stub two_cities 1700000000 1700000000
         (snd (api_save float_stub two_cities 1700000000 1700000000 Map.empty save_cities))
         save_capitals) ''datasets.json''
     = Some (Json_text (JArr
         [new_entry save_cities ''custom_1700000000'' (JStr ''dataset_1700000000.json''),
          new_entry save_capitals ''custom_1700000000'' (JStr ''dataset_1700000000.json'')]))"
proof -
  have g: "given_id save_cities = None" "given_id save_capitals = None"
    by (simp_all add: given_id_def save_cities_def save_capitals_def)
  have p1: "parse_results float_stub (query_result [paris_row, berlin_row])
             (dataset_type (req_config save_cities))
            = Inr [JObj [(''label'', JStr ''Paris''), (''id'', JStr ''Q90''),
                  (''lat'', JFloat (488566 / 10000)), (''lng'', JFloat (23522 / 10000))],
            JObj [(''label'', JStr ''Berlin''), (''id'', JStr ''Q64''),
                  (''lat'', JFloat (5252 / 100)), (''lng'', JFloat (13405 / 1000))]]"
    unfolding example_types by (rule two_cities_parsed)
  have p2: "parse_results float_stub (query_result [paris_row, berlin_row])
             (dataset_type (req_config save_capitals))
            = Inr [JObj [(''label'', JStr ''Paris''), (''id'', JStr ''Q90''),
                  (''lat'', JFloat (488566 / 10000)), (''lng'', JFloat (23522 / 10000))],
            JObj [(''label'', JStr ''Berlin''), (''id'', JStr ''Q64''),
                  (''lat'', JFloat (5252 / 100)), (''lng'', JFloat (13405 / 1000))]]"
    unfolding example_types by (rule two_cities_parsed)
  have e: "(Map.empty :: rat fs) ''datasets.json'' = None" by simp
  show ?thesis
    using two_creates(2)[where ?endpoint1.0 = two_cities and ?endpoint2.0 = two_cities
        and fs = "Map.empty :: rat fs" and ?req1.0 = save_cities and ?req2.0 = save_capitals,
        OF g two_cities_fetched p1 _ two_cities_fetched p2 _ e,
        of 1700000000 1700000000 1700000000 1700000000]
    unfolding str_int_now by simp
qed

section \<open>Properties of the map shape cache\<close>

text \<open>
  Claim C10.  Two URLs that are equal after \<open>+\<close> is replaced by a space have the same
  cache file.  A call that finds the cache file returns its contents and changes neither
  the files nor the list of fetched URLs, whatever the remote server would answer.  So
  after a first call that fetched and stored the file, every later call with an equivalent
  URL returns the stored contents and fetches nothing.
\<close>

theorem shape_cache_hit:
  "(str_replace ''+'' '' '' url' = str_replace ''+'' '' '' url \<longrightarrow>
      cache_path md5_hex url' = cache_path md5_hex url)
   \<and> (fs (cache_path md5_hex url) = Some stored \<longrightarrow>
        proxy_map md5_hex http_get (fs, fetched) url = (FileResponse stored, (fs, fetched)))
   \<and> (fs (cache_path md5_hex url) = None \<and> http_get (str_replace ''+'' '' '' url) = Inr bytes
        \<and> str_replace ''+'' '' '' url' = str_replace ''+'' '' '' url \<longrightarrow>
        proxy_map md5_hex http_get (fs, fetched) url
          = (FileResponse bytes,
             (fs(cache_path md5_hex url \<mapsto> bytes), fetched @ [str_replace ''+'' '' '' url]))
        \<and> (\<forall>n. ((\<lambda>s. snd (proxy_map md5_hex later_get s url')) ^^ n)
                   (snd (proxy_map md5_hex http_get (fs, fetched) url))
                 = (fs(cache_path md5_hex url \<mapsto> bytes), fetched @ [str_replace ''+'' '' '' url])
               \<and> fst (proxy_map md5_hex later_get
                        (((\<lambda>s. snd (proxy_map md5_hex later_get s url')) ^^ n)
                           (snd (proxy_map md5_hex http_get (fs, fetched) url))) url')
                 = FileResponse bytes))"
proof (intro conjI impI)
  assume "str_replace ''+'' '' '' url' = str_replace ''+'' '' '' url"
  then show "cache_path md5_hex url' = cache_path md5_hex url"
    by (simp add: cache_path_def)
next
  assume "fs (cache_path md5_hex url) = Some stored"
  then show "proxy_map md5_hex http_get (fs, fetched) url = (FileResponse stored, (fs, fetched))"
    by (simp add: proxy_map_def)
next
  assume a: "fs (cache_path md5_hex url) = None \<and> http_get (str_replace ''+'' '' '' url) = Inr bytes
        \<and> str_replace ''+'' '' '' url' = str_replace ''+'' '' '' url"
  let ?s1 = "(fs(cache_path md5_hex url \<mapsto> bytes), fetched @ [str_replace ''+'' '' '' url])"
  from a show first: "proxy_map md5_hex http_get (fs, fetched) url = (FileResponse bytes, ?s1)"
    by (simp add: proxy_map_def)
  from a have k: "cache_path md5_hex url' = cache_path md5_hex url" by (simp add: cache_path_def)
  have hit: "proxy_map md5_hex later_get ?s1 url' = (FileResponse bytes, ?s1)"
    by (simp add: proxy_map_def k)
  have it: "((\<lambda>s. snd (proxy_map md5_hex later_get s url')) ^^ n) ?s1 = ?s1" for n
    by (induction n) (simp_all only: funpow.simps o_apply id_apply hit snd_conv)
  show "\<forall>n. ((\<lambda>s. snd (proxy_map md5_hex later_get s url')) ^^ n)
                   (snd (proxy_map md5_hex http_get (fs, fetched) url)) = ?s1
               \<and> fst (proxy_map md5_hex later_get
                        (((\<lambda>s. snd (proxy_map md5_hex later_get s url')) ^^ n)
                           (snd (proxy_map md5_hex http_get (fs, fetched) url))) url')
                 = FileResponse bytes"
    unfolding first snd_conv it hit fst_conv by simp
qed

lemma berlin_url_normalized:
  "str_replace ''+'' '' '' ''https://commons.wikimedia.org/data/main/Data:Berlin+map.map''
     = ''https://commons.wikimedia.org/data/main/Data:Berlin map.map''"
  "str_replace ''+'' '' '' ''https://commons.wikimedia.org/data/main/Data:Berlin map.map''
     = ''https://commons.wikimedia.org/data/main/Data:Berlin map.map''"
  by code_simp+

lemma berlin_cache_path:
  "cache_path digest_stub ''https://commons.wikimedia.org/data/main/Data:Berlin+map.map''
     = ''static/maps/59.json''"
  by code_simp

theorem shape_cache_witness:
  "str_replace ''+'' '' '' ''https://commons.wikimedia.org/data/main/Data:Berlin map.map''
     = str_replace ''+'' '' '' ''https://commons.wikimedia.org/data/main/Data:Berlin+map.map''
   \<and> cache_path digest_stub ''https://commons.wikimedia.org/data/main/Data:Berlin map.map''
     = cache_path digest_stub ''https://commons.wikimedia.org/data/main/Data:Berlin+map.map''
   \<and> (Map.empty :: rat fs)
        (cache_path digest_stub ''https://commons.wikimedia.org/data/main/Data:Berlin+map.map'') = None
   \<and> one_map (str_replace ''+'' '' '' ''https://commons.wikimedia.org/data/main/Data:Berlin+map.map'')
     = Inr (Json_text (JObj [(''type'', JStr ''FeatureCollection'')]))
   \<and> proxy_map digest_stub one_map (Map.empty, [])
        ''https://commons.wikimedia.org/data/main/Data:Berlin+map.map''
     = (FileResponse (Json_text (JObj [(''type'', JStr ''FeatureCollection'')])),
        ([''static/maps/59.json'' \<mapsto> Json_text (JObj [(''type'', JStr ''FeatureCollection'')])],
         [''https://commons.wikimedia.org/data/main/Data:Berlin map.map'']))
   \<and> proxy_map digest_stub offline
        ([''static/maps/59.json'' \<mapsto> Json_text (JObj [(''type'', JStr ''FeatureCollection'')])],
         [''https://commons.wikimedia.org/data/main/Data:Berlin map.map''])
        ''https://commons.wikimedia.org/data/main/Data:Berlin map.map''
     = (FileResponse (Json_text (JObj [(''type'', JStr ''FeatureCollection'')])),
        ([''static/maps/59.json'' \<mapsto> Json_text (JObj [(''type'', JStr ''FeatureCollection'')])],
         [''https://commons.wikimedia.org/data/main/Data:Berlin map.map'']))"
proof -
  let ?u = "''https://commons.wikimedia.org/data/main/Data:Berlin+map.map''"
  let ?u' = "''https://commons.wikimedia.org/data/main/Data:Berlin map.map''"
  let ?b = "Json_text (JObj [(''type'', JStr ''FeatureCollection'')]) :: rat content"
  let ?s1 = "([''static/maps/59.json'' \<mapsto> ?b], [?u'])"
  note t = shape_cache_hit[where url = ?u and url' = ?u' and md5_hex = digest_stub]
  have 1: "str_replace ''+'' '' '' ?u' = str_replace ''+'' '' '' ?u"
    unfolding berlin_url_normalized by (rule refl)
  have 2: "(Map.empty :: rat fs) (cache_path digest_stub ?u) = None" by simp
  have 3: "one_map (str_replace ''+'' '' '' ?u) = Inr ?b"
    unfolding berlin_url_normalized by (simp add: one_map_def)
  from t[THEN conjunct1] 1 have 4: "cache_path digest_stub ?u' = cache_path digest_stub ?u"
    by blast
  from t[where fs = "Map.empty :: rat fs" and http_get = one_map and bytes = ?b
      and fetched = "[]", THEN conjunct2, THEN conjunct2] 1 2 3
  have 5: "proxy_map digest_stub one_map (Map.empty, []) ?u
           = (FileResponse ?b,
              ((Map.empty :: rat fs)(cache_path digest_stub ?u \<mapsto> ?b),
               [] @ [str_replace ''+'' '' '' ?u]))"
    by blast
  have 6: "([''static/maps/59.json'' \<mapsto> ?b] :: rat fs) (cache_path digest_stub ?u') = Some ?b"
    unfolding 4 berlin_cache_path by simp
  from shape_cache_hit[where url = ?u' and md5_hex = digest_stub
      and fs = "[''static/maps/59.json'' \<mapsto> ?b]" and http_get = offline and stored = ?b
      and fetched = "[?u']", THEN conjunct2, THEN conjunct1] 6
  have 7: "proxy_map digest_stub offline ?s1 ?u' = (FileResponse ?b, ?s1)"
    by blast
  from 5 have 8: "proxy_map digest_stub one_map (Map.empty, []) ?u = (FileResponse ?b, ?s1)"
    unfolding berlin_cache_path berlin_url_normalized append.simps .
  from 1 4 2 3 8 7 show ?thesis by blast
qed

section \<open>The store stays well-formed\<close>

text \<open>
  Every request leaves a well-formed store well-formed, so the stores the server itself
  writes, starting without a document, are all well-formed.  In a well-formed store an
  id that no entry carries, and the first entry that carries a given id, are as the
  theorems on \<open>api_delete\<close> and \<open>api_save\<close> above suppose; the file name of an
  entry is a plain name, as the names the server mints are.
\<close>

lemma store_ok_beside: "store_ok (fs(path_join ''static'' f \<mapsto> c)) = store_ok fs"
  using static_not_store[of f] by (simp add: store_ok_def)

lemma store_ok_written:
  "store_ok (fs(''datasets.json'' \<mapsto> Json_text (JArr ds))) = list_all entry_ok ds"
  by (simp add: store_ok_def)

lemma store_ok_load:
  "store_ok fs \<Longrightarrow> \<exists>ds. load_datasets fs = JArr ds \<and> list_all entry_ok ds"
  by (auto simp: store_ok_def load_datasets_def split: option.splits content.splits json.splits)

lemma new_entry_ok:
  "dataset_id \<noteq> [] \<Longrightarrow> plain_name f \<Longrightarrow> entry_ok (new_entry req dataset_id (JStr f))"
  by (simp add: entry_ok_def new_entry_def)

lemma minted_name_plain: "plain_name (''dataset_'' @ str_int t @ ''.json'')"
proof -
  have "\<forall>c\<in>set (str_int t). c \<noteq> CHR ''/'' \<and> c \<noteq> CHR 0x00"
  proof
    fix c assume "c \<in> set (str_int t)"
    with set_str_int[of t] have "c \<in> set ''-0123456789''" by blast
    moreover have "CHR ''/'' \<notin> set ''-0123456789''" "CHR 0x00 \<notin> set ''-0123456789''"
      by simp_all
    ultimately show "c \<noteq> CHR ''/'' \<and> c \<noteq> CHR 0x00" by blast
  qed
  then have "list_all (\<lambda>c. c \<noteq> CHR ''/'' \<and> c \<noteq> CHR 0x00) (str_int t)"
    by (simp add: list_all_iff)
  then show ?thesis by (simp add: plain_name_def)
qed

lemma find_entry_mem: "find_entry ds i = Inr (Some d) \<Longrightarrow> d \<in> set ds"
  by (induction ds) (auto split: sum.splits if_splits)

lemma id_and_filename_plain:
  assumes "list_all entry_ok ds"
    and "id_and_filename t_id t_file (JArr ds) req = Inr (dataset_id, JStr f)"
  shows "plain_name f"
proof (cases "given_id req")
  case None
  with assms(2) have "f = ''dataset_'' @ str_int t_file @ ''.json''"
    by (simp add: id_and_filename_def)
  then show ?thesis by (simp only: minted_name_plain)
next
  case (Some i)
  with assms(2) obtain d where d: "find_entry ds i = Inr (Some d)"
    and f: "py_getitem d ''filename'' = Inr (JStr f)"
    by (auto simp: id_and_filename_def split: sum.splits option.splits if_splits)
  from d have "d \<in> set ds" by (rule find_entry_mem)
  with assms(1) have "entry_ok d" by (simp add: list_all_iff)
  with f show ?thesis by (auto simp: entry_ok_def split: sum.splits json.splits)
qed

lemma replace_entry_ok:
  "list_all entry_ok ds \<Longrightarrow> entry_ok new \<Longrightarrow> replace_entry ds i new = Inr ds'
     \<Longrightarrow> list_all entry_ok ds'"
  by (induction ds arbitrary: ds') (auto split: sum.splits if_splits)

lemma remove_entries_ok:
  "list_all entry_ok ds \<Longrightarrow> remove_entries ds i = Inr ds' \<Longrightarrow> list_all entry_ok ds'"
  by (induction ds arbitrary: ds') (auto split: sum.splits if_splits)

lemma id_and_filename_nonempty:
  "id_and_filename t_id t_file datasets req = Inr (dataset_id, filename) \<Longrightarrow> dataset_id \<noteq> []"
  by (auto simp: id_and_filename_def given_id_def
      split: option.splits sum.splits if_splits)

lemma api_save_store_ok:
  assumes "store_ok fs"
  shows "store_ok (snd (api_save pyfloat endpoint t_id t_file fs req))"
proof -
  from assms obtain ds where l: "load_datasets fs = JArr ds" and ok: "list_all entry_ok ds"
    using store_ok_load by blast
  show ?thesis
  proof (cases "\<exists>raw parsed. endpoint (build_query (req_config req)) = Some raw
      \<and> parse_results pyfloat raw (dataset_type (req_config req)) = Inr parsed \<and> parsed \<noteq> []")
    case False
    then have "snd (api_save pyfloat endpoint t_id t_file fs req) = fs"
      unfolding api_save_def fetch_sparql_def Let_def
      by (auto split: option.splits sum.splits)
    with assms show ?thesis by simp
  next
    case True
    then obtain raw parsed where f: "endpoint (build_query (req_config req)) = Some raw"
      "parse_results pyfloat raw (dataset_type (req_config req)) = Inr parsed" "parsed \<noteq> []"
      by blast
    note s = api_save_fetched[where endpoint = endpoint and req = req and fs = fs, OF f]
    show ?thesis
    proof (cases "id_and_filename t_id t_file (load_datasets fs) req")
      case (Inl err)
      with assms show ?thesis by (simp add: s)
    next
      case (Inr p)
      obtain dataset_id filename where p: "p = (dataset_id, filename)" by (cases p)
      from Inr p have ne: "dataset_id \<noteq> []" by (auto dest: id_and_filename_nonempty)
      show ?thesis
      proof (cases "\<exists>f. filename = JStr f")
        case False
        with Inr p assms show ?thesis by (cases filename) (simp_all add: s)
      next
        case True
        then obtain fn where fn: "filename = JStr fn" by blast
        have "plain_name fn"
          using ok Inr p fn l id_and_filename_plain[of ds t_id t_file req dataset_id fn] by simp
        with ne have e: "entry_ok (new_entry req dataset_id (JStr fn) :: 'a json)"
          by (rule new_entry_ok)
        show ?thesis
        proof (cases "given_id req")
          case None
          with Inr p fn l ok e assms show ?thesis
            by (simp add: s append_to_def store_ok_written store_ok_beside)
        next
          case (Some i)
          show ?thesis
          proof (cases "replace_entry ds dataset_id (new_entry req dataset_id (JStr fn))")
            case (Inl err)
            with Inr p fn l Some assms show ?thesis
              by (simp add: s replace_in_def store_ok_beside)
          next
            case (Inr ds')
            with ok e have "list_all entry_ok ds'" by (auto dest: replace_entry_ok)
            with Inr \<open>id_and_filename t_id t_file (load_datasets fs) req = Inr p\<close> p fn l Some
            show ?thesis
              by (simp add: s replace_in_def store_ok_written)
          qed
        qed
      qed
    qed
  qed
qed

lemma api_delete_store_ok:
  assumes "store_ok fs"
  shows "store_ok (snd (api_delete remove_ok fs req))"
proof (cases "fs ''datasets.json''")
  case None
  with assms show ?thesis by (simp add: api_delete_def)
next
  case (Some c)
  with assms obtain ds where c: "c = Json_text (JArr ds)" and ok: "list_all entry_ok ds"
    by (auto simp: store_ok_def split: content.splits json.splits)
  have rm: "store_ok (fs(path_join ''static'' f := None))" for f
    using assms static_not_store[of f] by (simp add: store_ok_def)
  show ?thesis
    using assms Some c ok
    by (auto simp: api_delete_def Let_def store_ok_written rm
        split: sum.splits option.splits json.splits dest: remove_entries_ok)
qed

lemma proxy_map_store_ok:
  assumes "store_ok fs"
  shows "store_ok (fst (snd (proxy_map md5_hex http_get (fs, fetched) url)))"
proof -
  have "cache_path md5_hex url \<noteq> ''datasets.json''"
  proof (cases "startswith (md5_hex (str_replace ''+'' '' '' url) @ ''.json'') ''/''")
    case True
    then obtain r where "md5_hex (str_replace ''+'' '' '' url) @ ''.json'' = CHR ''/'' # r"
      by (cases "md5_hex (str_replace ''+'' '' '' url) @ ''.json''") (simp_all add: startswith_def)
    with True show ?thesis by (simp add: cache_path_def path_join_def MAPS_DIR_def)
  next
    case False
    have "path_join ''static'' ''maps'' = ''static/maps''"
      by (simp add: path_join_def startswith_def)
    with False show ?thesis by (simp add: cache_path_def path_join_def MAPS_DIR_def)
  qed
  with assms show ?thesis
    by (auto simp: proxy_map_def Let_def store_ok_def split: option.splits sum.splits)
qed

lemma entry_ok_fields:
  assumes "entry_ok d"
  obtains i f where "py_getitem d ''id'' = Inr (JStr i)" "i \<noteq> []"
    "py_getitem d ''filename'' = Inr (JStr f)" "plain_name f"
  using assms by (auto simp: entry_ok_def split: sum.splits json.splits)

lemma store_ok_other_ids:
  assumes "list_all entry_ok ds" and "\<forall>d\<in>set ds. py_getitem d ''id'' \<noteq> Inr (JStr i)"
  shows "list_all (other_id i) ds"
  unfolding list_all_iff
proof
  fix d assume d: "d \<in> set ds"
  with assms(1) have "entry_ok d" by (simp add: list_all_iff)
  then obtain j f where "py_getitem d ''id'' = Inr (JStr j)" by (rule entry_ok_fields)
  with assms(2) d show "other_id i d" by (auto simp: other_id_def)
qed

lemma store_ok_first_match:
  assumes "list_all entry_ok ds" and "\<exists>d\<in>set ds. py_getitem d ''id'' = Inr (JStr i)"
  shows "\<exists>before old after f. ds = before @ old # after \<and> list_all (other_id i) before
           \<and> py_getitem old ''id'' = Inr (JStr i) \<and> py_getitem old ''filename'' = Inr (JStr f)
           \<and> plain_name f"
  using assms
proof (induction ds)
  case Nil
  then show ?case by simp
next
  case (Cons d ds)
  from Cons.prems(1) have dok: "entry_ok d" and rest: "list_all entry_ok ds" by simp_all
  from dok obtain j f where j: "py_getitem d ''id'' = Inr (JStr j)"
    and f: "py_getitem d ''filename'' = Inr (JStr f)" and pf: "plain_name f"
    by (rule entry_ok_fields)
  show ?case
  proof (cases "j = i")
    case True
    with j f pf have "d # ds = [] @ d # ds \<and> list_all (other_id i) []
        \<and> py_getitem d ''id'' = Inr (JStr i) \<and> py_getitem d ''filename'' = Inr (JStr f)
        \<and> plain_name f"
      by simp
    then show ?thesis by blast
  next
    case False
    with j Cons.prems(2) have "\<exists>d\<in>set ds. py_getitem d ''id'' = Inr (JStr i)" by auto
    with Cons.IH rest obtain before old after g where
      "ds = before @ old # after" "list_all (other_id i) before"
      "py_getitem old ''id'' = Inr (JStr i)" "py_getitem old ''filename'' = Inr (JStr g)"
      "plain_name g"
      by blast
    with j False have "d # ds = (d # before) @ old # after \<and> list_all (other_id i) (d # before)
        \<and> py_getitem old ''id'' = Inr (JStr i) \<and> py_getitem old ''filename'' = Inr (JStr g)
        \<and> plain_name g"
      by (simp add: other_id_def)
    then show ?thesis by blast
  qed
qed

end
